theory Spec2Isabelle
  imports Main "HOL-Library.Sublist" "HOL-Library.List_Lexorder" "HOL-Library.AList"
begin

section \<open>Python values\<close>

text \<open>
  A Python \<open>str\<close> is a sequence of Unicode code points, so a string is a list of
  natural numbers and its length counts code points. \<open>py\<close> turns a literal into
  such a string.
\<close>

type_synonym codepoint = nat
type_synonym pystr = "codepoint list"

definition py :: "string \<Rightarrow> pystr" where
  "py s = map of_char s"

text \<open>The exceptions that the two scripts can meet.\<close>

datatype py_error =
    FileNotFoundError | PermissionError | UnicodeEncodeError
  | TypeError | AttributeError | KeyError | IndexError | ZeroDivisionError
  | ValueError | CsvError | BibtexError | APIError

text \<open>\<open>d.get(key, default)\<close> on a dictionary.\<close>

definition dict_get :: "('k \<rightharpoonup> 'v) \<Rightarrow> 'k \<Rightarrow> 'v \<Rightarrow> 'v" where
  "dict_get d k dflt = (case d k of None \<Rightarrow> dflt | Some v \<Rightarrow> v)"

subsection \<open>Character classes of the Unicode database\<close>

text \<open>
  \<open>str.isspace\<close>, \<open>str.strip\<close> and the pattern \<open>\s\<close> of a \<open>str\<close> pattern
  share one table of white space.
\<close>

definition py_isspace :: "codepoint \<Rightarrow> bool" where
  "py_isspace c \<longleftrightarrow>
     (9 \<le> c \<and> c \<le> 13) \<or> (28 \<le> c \<and> c \<le> 32) \<or> c = 133 \<or> c = 160 \<or> c = 5760
     \<or> (8192 \<le> c \<and> c \<le> 8202) \<or> c = 8232 \<or> c = 8233 \<or> c = 8239 \<or> c = 8287
     \<or> c = 12288"

text \<open>
  The pattern \<open>\d\<close> of a \<open>str\<close> pattern matches every decimal digit of the Unicode
  database (category Nd), not only \<open>0\<close> to \<open>9\<close>. The ranges are those of Unicode 14.
\<close>

definition unicode_nd_ranges :: "(codepoint \<times> codepoint) list" where
  "unicode_nd_ranges =
    [(48, 57), (1632, 1641), (1776, 1785), (1984, 1993), (2406, 2415), (2534, 2543),
     (2662, 2671), (2790, 2799), (2918, 2927), (3046, 3055), (3174, 3183), (3302, 3311),
     (3430, 3439), (3558, 3567), (3664, 3673), (3792, 3801), (3872, 3881), (4160, 4169),
     (4240, 4249), (6112, 6121), (6160, 6169), (6470, 6479), (6608, 6617), (6784, 6793),
     (6800, 6809), (6992, 7001), (7088, 7097), (7232, 7241), (7248, 7257), (42528, 42537),
     (43216, 43225), (43264, 43273), (43472, 43481), (43504, 43513), (43600, 43609),
     (44016, 44025), (65296, 65305), (66720, 66729), (68912, 68921), (69734, 69743),
     (69872, 69881), (69942, 69951), (70096, 70105), (70384, 70393), (70736, 70745),
     (70864, 70873), (71248, 71257), (71360, 71369), (71472, 71481), (71904, 71913),
     (72016, 72025), (72784, 72793), (73040, 73049), (73120, 73129), (92768, 92777),
     (92864, 92873), (93008, 93017), (120782, 120831), (123200, 123209), (123632, 123641),
     (125264, 125273), (130032, 130041)]"

definition py_isdecimal :: "codepoint \<Rightarrow> bool" where
  "py_isdecimal c \<longleftrightarrow> list_ex (\<lambda>(lo, hi). lo \<le> c \<and> c \<le> hi) unicode_nd_ranges"

text \<open>
  \<open>str.lower\<close>. The table is exact below U+0100; above, the model keeps only the
  Kelvin sign U+212A, the one code point beyond ASCII whose lower case is an ASCII
  string. Every other code point is left as it is, which is what Python does to U+017F
  (the long s) and to every character without case. Python does change the other cased
  letters above U+00FF, but never into an ASCII letter, so a comparison with one of the
  ASCII words of the program comes out the same.
\<close>

definition py_lower_char :: "codepoint \<Rightarrow> codepoint" where
  "py_lower_char c =
     (if (65 \<le> c \<and> c \<le> 90) \<or> (192 \<le> c \<and> c \<le> 222 \<and> c \<noteq> 215) then c + 32
      else if c = 8490 then 107
      else c)"

definition py_lower :: "pystr \<Rightarrow> pystr" where
  "py_lower s = map py_lower_char s"

text \<open>\<open>str.strip()\<close> removes white space at both ends.\<close>

definition py_strip :: "pystr \<Rightarrow> pystr" where
  "py_strip s = rev (dropWhile py_isspace (rev (dropWhile py_isspace s)))"

section \<open>Regular expressions as the scripts use them\<close>

text \<open>
  The three patterns of \<open>parse_response\<close> are built from literal characters, the
  classes \<open>\s\<close>, \<open>\d\<close> and \<open>.\<close>, greedy repetition of one class, sequence,
  alternation and numbered groups. \<open>rmatch\<close> lists every way a pattern matches at the
  start of the text, in the order in which a backtracking matcher tries them: the
  greedy repetition offers its longest run first, an alternation its left branch
  first. The head of the list is the match that \<open>re\<close> reports.
\<close>

datatype flag = IGNORECASE | DOTALL

datatype atom = Lit codepoint | Space | Digit | Dot

datatype regex =
    Eps
  | Atom atom
  | Star atom
  | Seq regex regex
  | Alt regex regex
  | Group nat regex

text \<open>
  Under \<open>re.IGNORECASE\<close> a literal ASCII letter matches both of its cases, and
  \<open>i\<close>, \<open>k\<close> and \<open>s\<close> also match U+0130 and U+0131, U+212A, and U+017F. A literal
  that is no ASCII letter matches itself (the patterns here are ASCII).
\<close>

definition sre_case_variants :: "codepoint \<Rightarrow> codepoint list" where
  "sre_case_variants p =
     (let lo = (if 65 \<le> p \<and> p \<le> 90 then p + 32 else p) in
      if 97 \<le> lo \<and> lo \<le> 122 then
        [lo - 32, lo] @
        (if lo = 105 then [304, 305] else if lo = 107 then [8490]
         else if lo = 115 then [383] else [])
      else [p])"

definition atom_match :: "flag list \<Rightarrow> atom \<Rightarrow> codepoint \<Rightarrow> bool" where
  "atom_match flags a c =
     (case a of
        Lit p \<Rightarrow> if IGNORECASE \<in> set flags then c \<in> set (sre_case_variants p) else c = p
      | Space \<Rightarrow> py_isspace c
      | Digit \<Rightarrow> py_isdecimal c
      | Dot \<Rightarrow> DOTALL \<in> set flags \<or> c \<noteq> 10)"

type_synonym groups = "nat \<rightharpoonup> pystr"

fun rmatch :: "flag list \<Rightarrow> regex \<Rightarrow> pystr \<times> groups \<Rightarrow> (pystr \<times> groups) list" where
  "rmatch flags Eps st = [st]"
| "rmatch flags (Atom a) (s, g) =
     (case s of [] \<Rightarrow> [] | c # cs \<Rightarrow> if atom_match flags a c then [(cs, g)] else [])"
| "rmatch flags (Star a) (s, g) =
     map (\<lambda>n. (drop n s, g)) (rev [0..<Suc (length (takeWhile (atom_match flags a) s))])"
| "rmatch flags (Seq r1 r2) st = concat (map (rmatch flags r2) (rmatch flags r1 st))"
| "rmatch flags (Alt r1 r2) st = rmatch flags r1 st @ rmatch flags r2 st"
| "rmatch flags (Group k r) (s, g) =
     map (\<lambda>(s', g'). (s', g'(k \<mapsto> take (length s - length s') s))) (rmatch flags r (s, g))"

text \<open>\<open>re.search\<close> tries every start position from the left and keeps the first match.\<close>

fun re_search :: "regex \<Rightarrow> pystr \<Rightarrow> flag list \<Rightarrow> groups option" where
  "re_search r s flags =
     (case rmatch flags r (s, Map.empty) of
        m # _ \<Rightarrow> Some (snd m)
      | [] \<Rightarrow> (case s of [] \<Rightarrow> None | _ # cs \<Rightarrow> re_search r cs flags))"

text \<open>A literal word, and \<open>a+\<close> as \<open>aa*\<close>.\<close>

definition word :: "string \<Rightarrow> regex" where
  "word w = foldr (\<lambda>c r. Seq (Atom (Lit (of_char c))) r) w Eps"

definition Plus :: "atom \<Rightarrow> regex" where
  "Plus a = Seq (Atom a) (Star a)"

section \<open>The response parser\<close>

record evaluation =
  status :: pystr
  criteria :: pystr
  reasoning :: pystr

text \<open>
  \<^verbatim>\<open>Status:\s*(accepted|rejected|not-sure)\<close> with \<open>re.IGNORECASE\<close>,
  \<^verbatim>\<open>Criteria:\s*((CI|CX)\d+)\<close> with no flag, and
  \<^verbatim>\<open>Reasoning:\s*(.*)\<close> with \<open>re.DOTALL\<close>.
\<close>

definition status_re :: regex where
  "status_re =
     Seq (word ''Status:'') (Seq (Star Space)
       (Group 1 (Alt (word ''accepted'') (Alt (word ''rejected'') (word ''not-sure'')))))"

definition criteria_re :: regex where
  "criteria_re =
     Seq (word ''Criteria:'') (Seq (Star Space)
       (Group 1 (Seq (Group 2 (Alt (word ''CI'') (word ''CX''))) (Plus Digit))))"

definition reasoning_re :: regex where
  "reasoning_re = Seq (word ''Reasoning:'') (Seq (Star Space) (Group 1 (Star Dot)))"

text \<open>
  \<open>m.group(1)\<close> is \<open>None\<close> when the group took no part in the match, and a method
  call on \<open>None\<close> raises \<open>AttributeError\<close>. Group 1 of each of the three patterns
  takes part in every match, so none of these branches is ever taken; for the criteria,
  where no method is called, the branch is written as an error as well.
\<close>

definition group_method :: "groups \<Rightarrow> nat \<Rightarrow> (pystr \<Rightarrow> pystr) \<Rightarrow> py_error + pystr" where
  "group_method m k f = (case m k of None \<Rightarrow> Inl AttributeError | Some s \<Rightarrow> Inr (f s))"

text \<open>
  The body of the \<open>try\<close> block. The text comes from the first choice of the completion,
  whose content may be \<open>None\<close>; \<open>re.search\<close> then raises \<open>TypeError\<close>.
\<close>

definition parse_response_body :: "pystr option \<Rightarrow> py_error + evaluation" where
  "parse_response_body response_text =
     (case response_text of
        None \<Rightarrow> Inl TypeError
      | Some text \<Rightarrow>
          let status_match = re_search status_re text [IGNORECASE];
              criteria_match = re_search criteria_re text [];
              reasoning_match = re_search reasoning_re text [DOTALL]
          in
          (case (case status_match of Some m \<Rightarrow> group_method m 1 py_lower
                                    | None \<Rightarrow> Inr (py ''not-sure'')) of
             Inl e \<Rightarrow> Inl e
           | Inr st \<Rightarrow>
          (case (case criteria_match of Some m \<Rightarrow> Inr (m 1)
                                      | None \<Rightarrow> Inr (Some (py ''not-specified''))) of
             Inl e \<Rightarrow> Inl e
           | Inr cr \<Rightarrow>
          (case (case reasoning_match of Some m \<Rightarrow> group_method m 1 py_strip
                                       | None \<Rightarrow> Inr []) of
             Inl e \<Rightarrow> Inl e
           | Inr rs \<Rightarrow>
          (case cr of
             None \<Rightarrow> Inl TypeError
           | Some cr' \<Rightarrow> Inr \<lparr>status = st, criteria = cr', reasoning = rs\<rparr>)))))"

definition parse_error_verdict :: evaluation where
  "parse_error_verdict =
     \<lparr>status = py ''not-sure'', criteria = py ''parse-error'',
      reasoning = py ''Response parsing failed''\<rparr>"

definition parse_response :: "pystr option \<Rightarrow> evaluation" where
  "parse_response response_text =
     (case parse_response_body response_text of
        Inr v \<Rightarrow> v
      | Inl e \<Rightarrow> parse_error_verdict)"

section \<open>What the three patterns look for\<close>

text \<open>
  The patterns again, this time as plain functions on the text, without the matcher:
  \<open>lit_prefix\<close> says that the text starts with a literal word, \<open>status_line\<close> gives
  the value of a status line that starts at the head of the text (the keyword, any
  white space, one of the three values), \<open>criteria_code\<close> the code after the keyword
  \<open>Criteria:\<close> (a \<open>C\<close>, an \<open>I\<close> or an \<open>X\<close>, and the longest run of digits),
  \<open>reasoning_text\<close> the rest of the text after \<open>Reasoning:\<close> and its white space.
  \<open>first_match\<close> tries a function at every position from the left, and \<open>match_at\<close>
  is the matcher at one position.
\<close>

fun lit_prefix :: "flag list \<Rightarrow> string \<Rightarrow> pystr \<Rightarrow> bool" where
  "lit_prefix flags [] s = True"
| "lit_prefix flags (c # w) [] = False"
| "lit_prefix flags (c # w) (d # s) = (atom_match flags (Lit (of_char c)) d \<and> lit_prefix flags w s)"

definition status_line :: "pystr \<Rightarrow> pystr option" where
  "status_line s =
     (if lit_prefix [IGNORECASE] ''Status:'' s then
        (let v = dropWhile py_isspace (drop 7 s) in
         if lit_prefix [IGNORECASE] ''accepted'' v \<or> lit_prefix [IGNORECASE] ''rejected'' v
            \<or> lit_prefix [IGNORECASE] ''not-sure'' v
         then Some (take 8 v) else None)
      else None)"

definition criteria_code :: "pystr \<Rightarrow> pystr option" where
  "criteria_code s =
     (if lit_prefix [] ''Criteria:'' s then
        (let v = dropWhile py_isspace (drop 9 s) in
         if (lit_prefix [] ''CI'' v \<or> lit_prefix [] ''CX'' v)
            \<and> list_ex py_isdecimal (take 1 (drop 2 v))
         then Some (take 2 v @ takeWhile py_isdecimal (drop 2 v)) else None)
      else None)"

definition reasoning_text :: "pystr \<Rightarrow> pystr option" where
  "reasoning_text s =
     (if lit_prefix [] ''Reasoning:'' s then Some (dropWhile py_isspace (drop 10 s)) else None)"

fun first_match :: "(pystr \<Rightarrow> 'a option) \<Rightarrow> pystr \<Rightarrow> 'a option" where
  "first_match f s =
     (case f s of
        Some v \<Rightarrow> Some v
      | None \<Rightarrow> (case s of [] \<Rightarrow> None | _ # cs \<Rightarrow> first_match f cs))"

definition match_at :: "flag list \<Rightarrow> regex \<Rightarrow> pystr \<Rightarrow> groups option" where
  "match_at flags r s =
     (case rmatch flags r (s, Map.empty) of [] \<Rightarrow> None | m # _ \<Rightarrow> Some (snd m))"

text \<open>The code points that \<open>py_lower_char\<close> moves or reaches.\<close>

definition cased :: "nat \<Rightarrow> bool" where
  "cased x \<longleftrightarrow> (65 \<le> x \<and> x \<le> 90) \<or> (97 \<le> x \<and> x \<le> 122)
     \<or> (192 \<le> x \<and> x \<le> 254) \<or> x = 8490"

section \<open>The oracle client\<close>

text \<open>
  The chat-completion service is outside the program. A call sends the model name,
  the system message and the user prompt (the temperature is the constant 0) and
  either raises or returns a response, of which the program reads the message content
  of each choice. The service has a state of its own, so that two calls with the same
  request may differ.
\<close>

record request =
  model :: pystr
  system_content :: pystr
  user_content :: pystr

datatype reply = Raised | Response "pystr option list"

type_synonym 'w service = "'w \<Rightarrow> request \<Rightarrow> reply \<times> 'w"

definition build_prompt :: "pystr \<Rightarrow> pystr \<Rightarrow> pystr \<Rightarrow> pystr" where
  "build_prompt a_title abstract criteria_content =
     py ''Evaluate the paper based on these criteria:'' @ [10, 10]
     @ criteria_content @ [10, 10]
     @ py ''Title: '' @ a_title @ [10]
     @ py ''Abstract: '' @ abstract @ [10, 10]
     @ py ''Respond STRICTLY in this format:'' @ [10]
     @ py ''Status: [accepted/rejected/not-sure]'' @ [10]
     @ py ''Criteria: [CIn/CXn/not-applicable]'' @ [10]
     @ py ''Reasoning: [Brief explanation linking to specific criteria]''"

definition chat_request :: "pystr \<Rightarrow> pystr \<Rightarrow> request" where
  "chat_request model_name prompt =
     \<lparr>model = model_name,
      system_content =
        py ''You are a systematic review assistant. Use the exact response format.'',
      user_content = prompt\<rparr>"

definition api_error_verdict :: evaluation where
  "api_error_verdict =
     \<lparr>status = py ''not-sure'', criteria = py ''api-error'',
      reasoning = py ''Evaluation failed''\<rparr>"

text \<open>
  Everything between the call and \<open>parse_response\<close> is inside one \<open>try\<close>: an
  exception of the call and the \<open>IndexError\<close> of \<open>response.choices[0]\<close> on an empty
  list of choices both end in the handler.
\<close>

definition evaluate_entry ::
  "'w service \<Rightarrow> 'w \<Rightarrow> pystr \<Rightarrow> pystr \<Rightarrow> pystr \<Rightarrow> pystr \<Rightarrow> evaluation \<times> 'w" where
  "evaluate_entry client w a_title abstract criteria_content model_name =
     (let prompt = build_prompt a_title abstract criteria_content;
          (response, w') = client w (chat_request model_name prompt)
      in (case response of
            Raised \<Rightarrow> (api_error_verdict, w')
          | Response choices \<Rightarrow>
              (case choices of
                 [] \<Rightarrow> (api_error_verdict, w')
               | content # _ \<Rightarrow> (parse_response content, w'))))"

text \<open>
  A service for tests: it answers from a script, one reply per call, and raises once
  the script is used up.
\<close>

definition scripted_client :: "reply list service" where
  "scripted_client script req =
     (case script of [] \<Rightarrow> (Raised, []) | r # rest \<Rightarrow> (r, rest))"

section \<open>The evaluation pipeline\<close>

text \<open>A bibliography entry is the dictionary that the BibTeX parser returns.\<close>

type_synonym entry = "pystr \<rightharpoonup> pystr"

record verdict = evaluation +
  citekey :: pystr
  title :: pystr

text \<open>
  The loop of \<open>process_entries\<close>. Its first statement divides the index by the number
  of entries for the progress line, which raises \<open>ZeroDivisionError\<close> when that number
  is zero. Log lines are not part of the model.
\<close>

fun process_loop ::
  "'w service \<Rightarrow> 'w \<Rightarrow> nat \<Rightarrow> entry list \<Rightarrow> pystr \<Rightarrow> pystr
     \<Rightarrow> py_error + (verdict list \<times> 'w)" where
  "process_loop client w total_entries [] criteria_content model_name = Inr ([], w)"
| "process_loop client w total_entries (entry # entries) criteria_content model_name =
     (if total_entries = 0 then Inl ZeroDivisionError
      else
        let (evaluation, w') =
              evaluate_entry client w
                (dict_get entry (py ''title'') [])
                (dict_get entry (py ''abstract'') [])
                criteria_content model_name;
            result =
              \<lparr>status = status evaluation,
               criteria = criteria evaluation,
               reasoning = reasoning evaluation,
               citekey = dict_get entry (py ''ID'') (py ''N/A''),
               title = dict_get entry (py ''title'') []\<rparr>
        in (case process_loop client w' total_entries entries criteria_content model_name of
              Inl e \<Rightarrow> Inl e
            | Inr (results, w'') \<Rightarrow> Inr (result # results, w'')))"

definition process_entries ::
  "'w service \<Rightarrow> 'w \<Rightarrow> entry list \<Rightarrow> pystr \<Rightarrow> pystr \<Rightarrow> py_error + (verdict list \<times> 'w)" where
  "process_entries client w entries criteria_content model_name =
     process_loop client w (length entries) entries criteria_content model_name"


section \<open>The statistics reporter\<close>

text \<open>
  \<open>counts\<close> is a dictionary with three fixed keys, and \<open>counts[item['status']] += 1\<close>
  raises \<open>KeyError\<close> on any other status. \<open>criteria_counts\<close> grows with the criteria
  met, in order of first appearance.
\<close>

type_synonym counter = "(pystr \<times> nat) list"

definition initial_counts :: counter where
  "initial_counts = [(py ''accepted'', 0), (py ''rejected'', 0), (py ''not-sure'', 0)]"

fun count_loop :: "counter \<times> counter \<Rightarrow> verdict list \<Rightarrow> py_error + (counter \<times> counter)" where
  "count_loop (counts, criteria_counts) [] = Inr (counts, criteria_counts)"
| "count_loop (counts, criteria_counts) (item # results) =
     (case map_of counts (status item) of
        None \<Rightarrow> Inl KeyError
      | Some n \<Rightarrow>
          count_loop
            (AList.update (status item) (n + 1) counts,
             AList.update (criteria item)
               (dict_get (map_of criteria_counts) (criteria item) 0 + 1) criteria_counts)
            results)"

text \<open>
  A line of the report: a heading, or a name with its count and the share of the count
  in the total. The share is \<open>count / total\<close>, which raises \<open>ZeroDivisionError\<close> when the
  total is zero; how the share is printed is not part of the model.
\<close>

datatype report_line = Heading pystr | Share pystr nat nat

definition share_line :: "pystr \<Rightarrow> nat \<Rightarrow> nat \<Rightarrow> py_error + report_line" where
  "share_line name count total_results =
     (if total_results = 0 then Inl ZeroDivisionError else Inr (Share name count total_results))"

fun status_lines :: "counter \<Rightarrow> nat \<Rightarrow> pystr list \<Rightarrow> py_error + report_line list" where
  "status_lines counts total_results [] = Inr []"
| "status_lines counts total_results (st # sts) =
     (case map_of counts st of
        None \<Rightarrow> Inl KeyError
      | Some n \<Rightarrow>
          (case share_line st n total_results of
             Inl e \<Rightarrow> Inl e
           | Inr l \<Rightarrow>
               (case status_lines counts total_results sts of
                  Inl e \<Rightarrow> Inl e
                | Inr ls \<Rightarrow> Inr (l # ls))))"

fun criteria_lines :: "nat \<Rightarrow> (pystr \<times> nat) list \<Rightarrow> py_error + report_line list" where
  "criteria_lines total_results [] = Inr []"
| "criteria_lines total_results ((cr, n) # items) =
     (case share_line cr n total_results of
        Inl e \<Rightarrow> Inl e
      | Inr l \<Rightarrow>
          (case criteria_lines total_results items of
             Inl e \<Rightarrow> Inl e
           | Inr ls \<Rightarrow> Inr (l # ls)))"

definition calculate_statistics :: "verdict list \<Rightarrow> py_error + report_line list" where
  "calculate_statistics results =
     (case count_loop (initial_counts, []) results of
        Inl e \<Rightarrow> Inl e
      | Inr (counts, criteria_counts) \<Rightarrow>
          let total_results = length results in
          (case status_lines counts total_results [py ''accepted'', py ''rejected'', py ''not-sure''] of
             Inl e \<Rightarrow> Inl e
           | Inr ls \<Rightarrow>
               (case criteria_lines total_results (sort_key fst criteria_counts) of
                  Inl e \<Rightarrow> Inl e
                | Inr cls \<Rightarrow>
                    Inr (Heading ([10] @ py ''Final Results:'') # ls
                         @ Heading ([10] @ py ''Criteria Breakdown:'') # cls))))"

section \<open>Files\<close>

text \<open>
  A path names no file, a file that cannot be opened (neither for reading nor for
  writing), or a text file. Text files hold decoded text.
\<close>

datatype file_node = Absent | Locked | Content pystr

type_synonym filesystem = "pystr \<Rightarrow> file_node"

text \<open>
  Reading in text mode with the default \<open>newline=None\<close> turns \<open>\r\n\<close> and a lone
  \<open>\r\<close> into \<open>\n\<close>.
\<close>

fun universal_newlines :: "pystr \<Rightarrow> pystr" where
  "universal_newlines [] = []"
| "universal_newlines [c] = (if c = 13 then [10] else [c])"
| "universal_newlines (c # d # cs) =
     (if c = 13 \<and> d = 10 then 10 # universal_newlines cs
      else if c = 13 then 10 # universal_newlines (d # cs)
      else c # universal_newlines (d # cs))"

definition read_text :: "filesystem \<Rightarrow> pystr \<Rightarrow> py_error + pystr" where
  "read_text fs path =
     (case fs path of
        Absent \<Rightarrow> Inl FileNotFoundError
      | Locked \<Rightarrow> Inl PermissionError
      | Content text \<Rightarrow> Inr (universal_newlines text))"

text \<open>
  Writing as UTF-8 raises \<open>UnicodeEncodeError\<close> on a surrogate code point. The text is
  stored as it is (\<open>newline=''\<close>, or a platform whose line separator is \<open>\n\<close>).
\<close>

definition utf8_encodable :: "pystr \<Rightarrow> bool" where
  "utf8_encodable text \<longleftrightarrow> list_all (\<lambda>c. c < 55296 \<or> 57343 < c) text"

definition write_text :: "filesystem \<Rightarrow> pystr \<Rightarrow> pystr \<Rightarrow> py_error + filesystem" where
  "write_text fs path text =
     (case fs path of
        Locked \<Rightarrow> Inl PermissionError
      | _ \<Rightarrow> if utf8_encodable text then Inr (fs(path := Content text))
             else Inl UnicodeEncodeError)"

section \<open>The results table\<close>

subsection \<open>Writing: \<open>csv.DictWriter\<close> with the default dialect\<close>

text \<open>
  The default dialect separates fields with a comma, ends a row with \<open>\r\n\<close> and
  quotes a field only when it must: when the field holds a comma, a quote or one of
  the characters of the row terminator. Inside a quoted field a quote is doubled. A row
  made of one empty field is written as two quotes.
\<close>

definition csv_special :: "codepoint \<Rightarrow> bool" where
  "csv_special c \<longleftrightarrow> c = 44 \<or> c = 34 \<or> c = 13 \<or> c = 10"

definition csv_field :: "pystr \<Rightarrow> pystr" where
  "csv_field f =
     (if list_ex csv_special f
      then [34] @ concat (map (\<lambda>c. if c = 34 then [34, 34] else [c]) f) @ [34]
      else f)"

fun join_fields :: "pystr list \<Rightarrow> pystr" where
  "join_fields [] = []"
| "join_fields [f] = f"
| "join_fields (f # g # fs) = f @ [44] @ join_fields (g # fs)"

definition csv_writerow :: "pystr list \<Rightarrow> pystr" where
  "csv_writerow row =
     (if row = [[]] then [34, 34] else join_fields (map csv_field row)) @ [13, 10]"

definition fieldnames :: "pystr list" where
  "fieldnames = [py ''citekey'', py ''title'', py ''status'', py ''criteria'', py ''reasoning'']"

text \<open>
  \<open>DictWriter.writerows\<close> lays each dictionary out in the order of the field names. The
  dictionaries of \<open>process_entries\<close> have exactly these five keys.
\<close>

definition dict_to_list :: "verdict \<Rightarrow> pystr list" where
  "dict_to_list v = [citekey v, title v, status v, criteria v, reasoning v]"

definition results_table :: "verdict list \<Rightarrow> pystr" where
  "results_table results =
     csv_writerow fieldnames @ concat (map (\<lambda>v. csv_writerow (dict_to_list v)) results)"

definition write_results_to_csv ::
  "filesystem \<Rightarrow> verdict list \<Rightarrow> pystr \<Rightarrow> py_error + filesystem" where
  "write_results_to_csv fs results output_path =
     write_text fs output_path (results_table results)"

subsection \<open>Reading: \<open>csv.DictReader\<close> over a file opened in text mode\<close>

text \<open>
  The reader is the state machine of the \<open>csv\<close> module for the default dialect (no
  escape character, doubled quotes, not strict). It is fed the file line by line; each
  line ends with \<open>\n\<close>, the last one perhaps not.
\<close>

fun splitlines :: "pystr \<Rightarrow> pystr \<Rightarrow> pystr list" where
  "splitlines line [] = (if line = [] then [] else [line])"
| "splitlines line (c # cs) =
     (if c = 10 then (line @ [c]) # splitlines [] cs else splitlines (line @ [c]) cs)"

datatype reader_state =
  START_RECORD | START_FIELD | IN_FIELD | IN_QUOTED_FIELD | QUOTE_IN_QUOTED_FIELD | EAT_CRNL

record parser =
  state :: reader_state
  field :: pystr
  saved :: "pystr list"

definition parse_reset :: parser where
  "parse_reset = \<lparr>state = START_RECORD, field = [], saved = []\<rparr>"

definition field_limit :: nat where
  "field_limit = 131072"

definition parse_save_field :: "parser \<Rightarrow> parser" where
  "parse_save_field p = p\<lparr>saved := saved p @ [field p], field := []\<rparr>"

definition parse_add_char :: "parser \<Rightarrow> codepoint \<Rightarrow> py_error + parser" where
  "parse_add_char p c =
     (if field_limit \<le> length (field p) then Inl CsvError
      else Inr (p\<lparr>field := field p @ [c]\<rparr>))"

text \<open>One step of the machine; \<open>None\<close> is the end of a line.\<close>

definition is_nl :: "codepoint option \<Rightarrow> bool" where
  "is_nl c \<longleftrightarrow> c = Some 10 \<or> c = Some 13"

definition end_of_field :: "parser \<Rightarrow> codepoint option \<Rightarrow> py_error + parser" where
  "end_of_field p c =
     Inr ((parse_save_field p)\<lparr>state := (if c = None then START_RECORD else EAT_CRNL)\<rparr>)"

fun start_field :: "parser \<Rightarrow> codepoint option \<Rightarrow> py_error + parser" where
  "start_field p c =
     (if is_nl c \<or> c = None then end_of_field p c
      else if c = Some 34 then Inr (p\<lparr>state := IN_QUOTED_FIELD\<rparr>)
      else if c = Some 44 then Inr (parse_save_field p)
      else (case parse_add_char p (the c) of
              Inl e \<Rightarrow> Inl e
            | Inr p' \<Rightarrow> Inr (p'\<lparr>state := IN_FIELD\<rparr>)))"

fun parse_process_char :: "parser \<Rightarrow> codepoint option \<Rightarrow> py_error + parser" where
  "parse_process_char p c =
     (case state p of
        START_RECORD \<Rightarrow>
          (if c = None then Inr p
           else if is_nl c then Inr (p\<lparr>state := EAT_CRNL\<rparr>)
           else start_field (p\<lparr>state := START_FIELD\<rparr>) c)
      | START_FIELD \<Rightarrow> start_field p c
      | IN_FIELD \<Rightarrow>
          (if is_nl c \<or> c = None then end_of_field p c
           else if c = Some 44 then Inr ((parse_save_field p)\<lparr>state := START_FIELD\<rparr>)
           else parse_add_char p (the c))
      | IN_QUOTED_FIELD \<Rightarrow>
          (if c = None then Inr p
           else if c = Some 34 then Inr (p\<lparr>state := QUOTE_IN_QUOTED_FIELD\<rparr>)
           else parse_add_char p (the c))
      | QUOTE_IN_QUOTED_FIELD \<Rightarrow>
          (if c = Some 34 then
             (case parse_add_char p 34 of
                Inl e \<Rightarrow> Inl e
              | Inr p' \<Rightarrow> Inr (p'\<lparr>state := IN_QUOTED_FIELD\<rparr>))
           else if c = Some 44 then Inr ((parse_save_field p)\<lparr>state := START_FIELD\<rparr>)
           else if is_nl c \<or> c = None then end_of_field p c
           else (case parse_add_char p (the c) of
                   Inl e \<Rightarrow> Inl e
                 | Inr p' \<Rightarrow> Inr (p'\<lparr>state := IN_FIELD\<rparr>)))
      | EAT_CRNL \<Rightarrow>
          (if is_nl c then Inr p
           else if c = None then Inr (p\<lparr>state := START_RECORD\<rparr>)
           else Inl CsvError))"

fun feed_line :: "parser \<Rightarrow> pystr \<Rightarrow> py_error + parser" where
  "feed_line p [] = parse_process_char p None"
| "feed_line p (c # cs) =
     (case parse_process_char p (Some c) of Inl e \<Rightarrow> Inl e | Inr p' \<Rightarrow> feed_line p' cs)"

text \<open>
  The records of a file. A record ends when a line leaves the machine at the start of
  a record; at the end of the input a field under way is kept.
\<close>

fun reader_loop :: "parser \<Rightarrow> pystr list \<Rightarrow> py_error + pystr list list" where
  "reader_loop p [] =
     (if field p \<noteq> [] \<or> state p = IN_QUOTED_FIELD
      then Inr [saved (parse_save_field p)] else Inr [])"
| "reader_loop p (line # lines) =
     (case feed_line p line of
        Inl e \<Rightarrow> Inl e
      | Inr p' \<Rightarrow>
          if state p' = START_RECORD then
            (case reader_loop parse_reset lines of
               Inl e \<Rightarrow> Inl e
             | Inr rows \<Rightarrow> Inr (saved p' # rows))
          else reader_loop p' lines)"

text \<open>
  \<open>DictReader\<close> takes the first record as the field names, skips empty records, and
  pairs names with values; a name without a value gets \<open>None\<close>. Of two equal names the
  later one wins. Values beyond the names go under the key \<open>None\<close>, which no lookup
  by name reaches.
\<close>

type_synonym csv_row = "pystr \<rightharpoonup> pystr option"

definition make_row :: "pystr list \<Rightarrow> pystr list \<Rightarrow> csv_row" where
  "make_row names row =
     map_of (rev (zip names (map Some row @ replicate (length names - length row) None)))"

definition DictReader :: "pystr list \<Rightarrow> py_error + csv_row list" where
  "DictReader lines =
     (case reader_loop parse_reset lines of
        Inl e \<Rightarrow> Inl e
      | Inr [] \<Rightarrow> Inr []
      | Inr (names # rows) \<Rightarrow> Inr (map (make_row names) (filter (\<lambda>r. r \<noteq> []) rows)))"

text \<open>
  The table as \<open>generate_accepted_bib.py\<close> reads it, from
  \<open>open(results_csv, encoding="utf8")\<close>. The script reads a row when its loop asks
  for one; the model reads all rows first, since an exception of the reader and one of
  the loop end the function alike.
\<close>

definition read_results :: "filesystem \<Rightarrow> pystr \<Rightarrow> py_error + csv_row list" where
  "read_results fs results_csv =
     (case read_text fs results_csv of
        Inl e \<Rightarrow> Inl e
      | Inr text \<Rightarrow> DictReader (splitlines [] text))"

section \<open>The bibliography library\<close>

text \<open>
  \<open>bibtexparser\<close> is outside the program: \<open>load\<close> turns the text of a bibliography into
  its entries or raises, \<open>dump\<close> turns entries into text or raises. Both are parameters
  of the model.
\<close>

record bibtexparser =
  bib_load :: "pystr \<Rightarrow> py_error + entry list"
  bib_dump :: "entry list \<Rightarrow> py_error + pystr"

subsection \<open>The default writer of the library\<close>

text \<open>
  The filter calls \<open>bibtexparser.dump\<close> of version 1 of the library (the one that has
  \<open>bibdatabase.BibDatabase\<close>) with no writer of its own, so the text is made by a
  \<open>BibTexWriter\<close> with its default settings. A new database has no comments, preambles
  or strings, and the text is that of its entries.

  The writer has \<open>order_entries_by = ('ID',)\<close>: it goes through
  \<open>sorted(entries, key=entry_sort_key)\<close>, the key of an entry being
  \<open>str(entry.get('ID', '')).lower()\<close>. Strings compare code point by code point, and
  \<open>sorted\<close> keeps entries with equal keys in the order in which they came, as
  \<open>sort_key\<close> does.
\<close>

definition entry_sort_key :: "entry \<Rightarrow> pystr" where
  "entry_sort_key entry = py_lower (dict_get entry (py ''ID'') [])"

text \<open>
  An entry is written as \<open>@\<close>, its type, an opening brace and its identifier, then
  every other field in the alphabetical order of the field names, each as a comma, a
  line feed, one space, the name, \<open> = \<close> and the value in braces, and at the end a
  line feed, the closing brace, a line feed and the separator of entries, one more
  line feed. \<open>entry['ENTRYTYPE']\<close> and \<open>entry['ID']\<close> raise \<open>KeyError\<close> on an
  entry without them.
\<close>

definition display_order :: "entry \<Rightarrow> pystr list" where
  "display_order entry =
     filter (\<lambda>name. name \<noteq> py ''ENTRYTYPE'' \<and> name \<noteq> py ''ID'')
       (sorted_list_of_set (dom entry))"

definition field_to_bibtex :: "entry \<Rightarrow> pystr \<Rightarrow> pystr" where
  "field_to_bibtex entry name =
     [44, 10] @ py '' '' @ name @ py '' = '' @ [123] @ dict_get entry name [] @ [125]"

definition entry_to_bibtex :: "entry \<Rightarrow> py_error + pystr" where
  "entry_to_bibtex entry =
     (case entry (py ''ENTRYTYPE'') of
        None \<Rightarrow> Inl KeyError
      | Some entrytype \<Rightarrow>
     (case entry (py ''ID'') of
        None \<Rightarrow> Inl KeyError
      | Some ident \<Rightarrow>
          Inr ([64] @ entrytype @ [123] @ ident
               @ concat (map (field_to_bibtex entry) (display_order entry))
               @ [10, 125, 10] @ [10])))"

fun entries_to_bibtex :: "entry list \<Rightarrow> py_error + pystr" where
  "entries_to_bibtex [] = Inr []"
| "entries_to_bibtex (entry # entries) =
     (case entry_to_bibtex entry of
        Inl e \<Rightarrow> Inl e
      | Inr text \<Rightarrow>
     (case entries_to_bibtex entries of
        Inl e \<Rightarrow> Inl e
      | Inr rest \<Rightarrow> Inr (text @ rest)))"

definition BibTexWriter_write :: "entry list \<Rightarrow> py_error + pystr" where
  "BibTexWriter_write entries = entries_to_bibtex (sort_key entry_sort_key entries)"

section \<open>The evaluation tool\<close>

definition load_criteria :: "filesystem \<Rightarrow> pystr \<Rightarrow> py_error + pystr" where
  "load_criteria fs criteria_path = read_text fs criteria_path"

definition load_bib_entries :: "bibtexparser \<Rightarrow> filesystem \<Rightarrow> pystr \<Rightarrow> py_error + entry list" where
  "load_bib_entries lib fs input_path =
     (case read_text fs input_path of
        Inl e \<Rightarrow> Inl e
      | Inr text \<Rightarrow> bib_load lib text)"

text \<open>
  \<open>process_bib\<close> logs any exception and raises it again. What the files look like
  after a failure is not part of the model.
\<close>

definition process_bib ::
  "bibtexparser \<Rightarrow> 'w service \<Rightarrow> 'w \<Rightarrow> pystr \<Rightarrow> filesystem \<Rightarrow> pystr \<Rightarrow> pystr \<Rightarrow> pystr
     \<Rightarrow> py_error + (filesystem \<times> 'w \<times> report_line list)" where
  "process_bib lib client w MODEL_NAME fs input_path output_path criteria_path =
     (case load_criteria fs criteria_path of
        Inl e \<Rightarrow> Inl e
      | Inr criteria_content \<Rightarrow>
     (case load_bib_entries lib fs input_path of
        Inl e \<Rightarrow> Inl e
      | Inr entries \<Rightarrow>
     (case process_entries client w entries criteria_content MODEL_NAME of
        Inl e \<Rightarrow> Inl e
      | Inr (results, w') \<Rightarrow>
     (case write_results_to_csv fs results output_path of
        Inl e \<Rightarrow> Inl e
      | Inr fs' \<Rightarrow>
     (case calculate_statistics results of
        Inl e \<Rightarrow> Inl e
      | Inr report \<Rightarrow> Inr (fs', w', report))))))"

text \<open>
  The exit status of a Python process is 0 when the script runs to its end and 1 when
  an exception leaves it. The entry point of the evaluation tool catches every
  exception of \<open>process_bib\<close>, logs \<open>Fatal error occurred\<close> and goes on to the \<open>finally\<close>
  block and to the end of the script.
\<close>

definition survey_classifier_main ::
  "bibtexparser \<Rightarrow> 'w service \<Rightarrow> 'w \<Rightarrow> pystr \<Rightarrow> filesystem \<Rightarrow> pystr \<Rightarrow> pystr \<Rightarrow> pystr \<Rightarrow> nat" where
  "survey_classifier_main lib client w MODEL_NAME fs input_path output_path criteria_path =
     (case process_bib lib client w MODEL_NAME fs input_path output_path criteria_path of
        Inl e \<Rightarrow> 0
      | Inr finished \<Rightarrow> 0)"

section \<open>The bibliography filter\<close>

text \<open>
  The loop over the rows of the results table. \<open>row['status']\<close> raises \<open>KeyError\<close> when
  the table has no such column, and \<open>.lower()\<close> raises \<open>AttributeError\<close> on the \<open>None\<close>
  of a short row. The citekey is looked up for accepted rows only.
\<close>

fun accepted_keys_loop ::
  "pystr option set \<Rightarrow> csv_row list \<Rightarrow> py_error + pystr option set" where
  "accepted_keys_loop accepted_keys [] = Inr accepted_keys"
| "accepted_keys_loop accepted_keys (row # rows) =
     (case row (py ''status'') of
        None \<Rightarrow> Inl KeyError
      | Some None \<Rightarrow> Inl AttributeError
      | Some (Some s) \<Rightarrow>
          if py_lower s = py ''accepted'' then
            (case row (py ''citekey'') of
               None \<Rightarrow> Inl KeyError
             | Some k \<Rightarrow> accepted_keys_loop (insert k accepted_keys) rows)
          else accepted_keys_loop accepted_keys rows)"

definition create_accepted_bib ::
  "bibtexparser \<Rightarrow> filesystem \<Rightarrow> pystr \<Rightarrow> pystr \<Rightarrow> pystr \<Rightarrow> py_error + filesystem" where
  "create_accepted_bib lib fs original_bib results_csv output_file =
     (case read_results fs results_csv of
        Inl e \<Rightarrow> Inl e
      | Inr rows \<Rightarrow>
     (case accepted_keys_loop {} rows of
        Inl e \<Rightarrow> Inl e
      | Inr accepted_keys \<Rightarrow>
     (case read_text fs original_bib of
        Inl e \<Rightarrow> Inl e
      | Inr text \<Rightarrow>
     (case bib_load lib text of
        Inl e \<Rightarrow> Inl e
      | Inr entries \<Rightarrow>
          let accepted_entries =
                filter (\<lambda>entry. Some (dict_get entry (py ''ID'') []) \<in> accepted_keys) entries
          in
          (if fs output_file = Locked then Inl PermissionError
           else
             (case bib_dump lib accepted_entries of
                Inl e \<Rightarrow> Inl e
              | Inr out \<Rightarrow> write_text fs output_file out))))))"

text \<open>The entry point of the filter calls \<open>create_accepted_bib\<close> with no handler around it.\<close>

definition generate_accepted_bib_main ::
  "bibtexparser \<Rightarrow> filesystem \<Rightarrow> pystr \<Rightarrow> pystr \<Rightarrow> pystr \<Rightarrow> nat" where
  "generate_accepted_bib_main lib fs original_bib results_csv output_file =
     (case create_accepted_bib lib fs original_bib results_csv output_file of
        Inl e \<Rightarrow> 1
      | Inr finished \<Rightarrow> 0)"

text \<open>
  The selection rule in words: some row of the results table has the identifier of the
  entry as its citekey and a status that is \<open>accepted\<close> once put in lower case.
\<close>

definition accepted_in :: "csv_row list \<Rightarrow> entry \<Rightarrow> bool" where
  "accepted_in rows entry \<longleftrightarrow>
     list_ex (\<lambda>row.
        (case row (py ''status'') of
           Some (Some s) \<Rightarrow> py_lower s = py ''accepted''
         | _ \<Rightarrow> False)
        \<and> row (py ''citekey'') = Some (Some (dict_get entry (py ''ID'') []))) rows"

text \<open>
  The identifiers for which the table of \<open>py_lower\<close> is that of \<open>str.lower\<close>: those
  made of code points below U+0100.
\<close>

definition latin1 :: "pystr \<Rightarrow> bool" where
  "latin1 s \<longleftrightarrow> list_all (\<lambda>c. c < 256) s"

text \<open>
  A change of case of ASCII letters: \<open>ascii_lower\<close> puts the letters \<open>A\<close> to \<open>Z\<close> in
  lower case and leaves every other code point alone, so two texts differ in the case
  of ASCII letters only when \<open>map ascii_lower\<close> makes them equal.
\<close>

definition ascii_lower :: "codepoint \<Rightarrow> codepoint" where
  "ascii_lower c = (if 65 \<le> c \<and> c \<le> 90 then c + 32 else c)"
section \<open>Properties of the evaluation pipeline\<close>

lemma process_loop_total:
  "0 < n \<Longrightarrow> \<exists>vs w'. process_loop client w n es c m = Inr (vs, w')
      \<and> map citekey vs = map (\<lambda>e. dict_get e (py ''ID'') (py ''N/A'')) es"
proof (induction es arbitrary: w)
  case Nil
  then show ?case by simp
next
  case (Cons e es)
  obtain ev w1 where ev:
    "evaluate_entry client w (dict_get e (py ''title'') []) (dict_get e (py ''abstract'') []) c m
       = (ev, w1)"
    by (cases "evaluate_entry client w (dict_get e (py ''title'') [])
                 (dict_get e (py ''abstract'') []) c m")
  from Cons.IH [OF Cons.prems, of w1] obtain vs w' where
    "process_loop client w1 n es c m = Inr (vs, w')"
    "map citekey vs = map (\<lambda>e. dict_get e (py ''ID'') (py ''N/A'')) es"
    by blast
  with Cons.prems ev show ?case by simp
qed

lemma process_loop_any_total:
  "0 < n \<Longrightarrow> 0 < k \<Longrightarrow> process_loop client w n es c m = process_loop client w k es c m"
  by (induction es arbitrary: w) (auto split: prod.splits sum.splits)

text \<open>
  C1. For every sequence of entries, criteria document and model name, and whatever
  the service answers or raises, \<open>process_entries\<close> returns a list with one verdict per
  entry, and the citekeys of the verdicts are, in order, the identifiers of the
  entries (\<open>N/A\<close> for an entry without \<open>ID\<close>).
\<close>

theorem process_entries_length_and_order:
  "\<exists>vs w'. process_entries client w entries c m = Inr (vs, w')
     \<and> length vs = length entries
     \<and> map citekey vs = map (\<lambda>e. dict_get e (py ''ID'') (py ''N/A'')) entries"
proof (cases entries)
  case Nil
  then show ?thesis by (simp add: process_entries_def)
next
  case (Cons e es)
  then have "0 < length entries" by simp
  from process_loop_total [OF this, of client w entries c m] obtain vs w' where r:
    "process_loop client w (length entries) entries c m = Inr (vs, w')"
    "map citekey vs = map (\<lambda>e. dict_get e (py ''ID'') (py ''N/A'')) entries"
    by blast
  from r(2) have "length vs = length entries" by (metis length_map)
  with r show ?thesis by (simp add: process_entries_def)
qed

lemma process_entries_Nil: "process_entries client w [] c m = Inr ([], w)"
  by (simp add: process_entries_def)

lemma process_entries_Cons:
  "process_entries client w (e # es) c m =
     (let (ev, w') = evaluate_entry client w (dict_get e (py ''title'') [])
                       (dict_get e (py ''abstract'') []) c m
      in (case process_entries client w' es c m of
            Inl err \<Rightarrow> Inl err
          | Inr (vs, w'') \<Rightarrow>
              Inr (\<lparr>status = status ev, criteria = criteria ev, reasoning = reasoning ev,
                    citekey = dict_get e (py ''ID'') (py ''N/A''),
                    title = dict_get e (py ''title'') []\<rparr> # vs, w'')))"
proof (cases es)
  case Nil
  then show ?thesis by (simp add: process_entries_def split: prod.splits)
next
  case (Cons e' es')
  then have "process_loop client w' (Suc (length es)) es c m
      = process_loop client w' (length es) es c m" for w'
    by (intro process_loop_any_total) simp_all
  then show ?thesis by (simp add: process_entries_def split: prod.splits)
qed

lemma process_entries_append:
  "process_entries client w (es1 @ es2) c m =
     (case process_entries client w es1 c m of
        Inl err \<Rightarrow> Inl err
      | Inr (vs1, w1) \<Rightarrow>
          (case process_entries client w1 es2 c m of
             Inl err \<Rightarrow> Inl err
           | Inr (vs2, w2) \<Rightarrow> Inr (vs1 @ vs2, w2)))"
proof (induction es1 arbitrary: w)
  case Nil
  show ?case by (simp add: process_entries_Nil split: sum.splits)
next
  case (Cons e es1)
  show ?case
    by (simp add: process_entries_Cons Cons.IH split: prod.splits sum.splits)
qed

lemma process_entries_returns:
  "\<exists>vs w'. process_entries client w es c m = Inr (vs, w')"
proof (cases es)
  case Nil
  then show ?thesis by (simp add: process_entries_Nil)
next
  case (Cons e es')
  then have "0 < length es" by simp
  from process_loop_total [OF this, of client w es c m]
  show ?thesis by (auto simp: process_entries_def)
qed

text \<open>
  C5. A failure at one entry is recovered at that entry. Let the entries before
  \<open>e\<close> have been processed, leaving the service in state \<open>w1\<close>, and let the call for
  \<open>e\<close> answer \<open>response\<close>. The entries after \<open>e\<close> are processed all the same, and the
  verdict of \<open>e\<close> stands between those of its neighbours: it is the api-error sentinel
  when the call raised (or returned no choice, which raises inside the same \<open>try\<close>), and
  the parse-error sentinel when the content of the first choice is \<open>None\<close>, on which
  \<open>re.search\<close> raises.
\<close>

theorem per_entry_failure_recovered:
  assumes "process_entries client w before c m = Inr (vs1, w1)"
    and "client w1 (chat_request m (build_prompt (dict_get e (py ''title'') [])
           (dict_get e (py ''abstract'') []) c)) = (response, w2)"
  shows "\<exists>vs2 w3. process_entries client w2 after c m = Inr (vs2, w3) \<and>
     (response = Raised \<or> response = Response [] \<longrightarrow>
        process_entries client w (before @ e # after) c m =
          Inr (vs1 @ \<lparr>status = py ''not-sure'', criteria = py ''api-error'',
                      reasoning = py ''Evaluation failed'',
                      citekey = dict_get e (py ''ID'') (py ''N/A''),
                      title = dict_get e (py ''title'') []\<rparr> # vs2, w3)) \<and>
     ((\<exists>rest. response = Response (None # rest)) \<longrightarrow>
        process_entries client w (before @ e # after) c m =
          Inr (vs1 @ \<lparr>status = py ''not-sure'', criteria = py ''parse-error'',
                      reasoning = py ''Response parsing failed'',
                      citekey = dict_get e (py ''ID'') (py ''N/A''),
                      title = dict_get e (py ''title'') []\<rparr> # vs2, w3))"
proof -
  obtain vs2 w3 where rest: "process_entries client w2 after c m = Inr (vs2, w3)"
    using process_entries_returns [of client w2 after c m] by auto
  have api: "response = Raised \<or> response = Response [] \<Longrightarrow>
      evaluate_entry client w1 (dict_get e (py ''title'') [])
        (dict_get e (py ''abstract'') []) c m = (api_error_verdict, w2)"
    using assms(2) by (auto simp: evaluate_entry_def)
  have parse: "response = Response (None # r) \<Longrightarrow>
      evaluate_entry client w1 (dict_get e (py ''title'') [])
        (dict_get e (py ''abstract'') []) c m = (parse_error_verdict, w2)" for r
    using assms(2)
    by (simp add: evaluate_entry_def parse_response_def parse_response_body_def)
  show ?thesis
    using rest assms(1) api parse
    by (auto simp: process_entries_append process_entries_Cons
        api_error_verdict_def parse_error_verdict_def)
qed

theorem per_entry_failure_recovered_witness:
  "process_entries scripted_client [Raised, Response [None]]
     [[py ''ID'' \<mapsto> py ''k1''], [py ''ID'' \<mapsto> py ''k2'']] [] [] =
   Inr ([\<lparr>status = py ''not-sure'', criteria = py ''api-error'',
           reasoning = py ''Evaluation failed'', citekey = py ''k1'', title = []\<rparr>,
         \<lparr>status = py ''not-sure'', criteria = py ''parse-error'',
           reasoning = py ''Response parsing failed'', citekey = py ''k2'', title = []\<rparr>],
        [])"
proof -
  define e1 :: entry where "e1 = [py ''ID'' \<mapsto> py ''k1'']"
  define e2 :: entry where "e2 = [py ''ID'' \<mapsto> py ''k2'']"
  have get1: "dict_get e1 (py ''ID'') (py ''N/A'') = py ''k1''"
    "dict_get e1 (py ''title'') [] = []"
    by (simp_all add: e1_def dict_get_def py_def)
  have get2: "dict_get e2 (py ''ID'') (py ''N/A'') = py ''k2''"
    "dict_get e2 (py ''title'') [] = []"
    by (simp_all add: e2_def dict_get_def py_def)
  have nil: "process_entries scripted_client s [] [] [] = Inr ([], s)" for s
    by (simp add: process_entries_Nil)
  have "scripted_client [Response [None]] (chat_request [] (build_prompt
          (dict_get e2 (py ''title'') []) (dict_get e2 (py ''abstract'') []) []))
        = (Response [None], [])"
    by (simp add: scripted_client_def)
  from per_entry_failure_recovered [OF nil this, of "[]"]
  have second: "process_entries scripted_client [Response [None]] [e2] [] [] =
      Inr ([\<lparr>status = py ''not-sure'', criteria = py ''parse-error'',
             reasoning = py ''Response parsing failed'', citekey = py ''k2'',
             title = []\<rparr>], [])"
    by (simp add: nil get2)
  have "scripted_client [Raised, Response [None]] (chat_request [] (build_prompt
          (dict_get e1 (py ''title'') []) (dict_get e1 (py ''abstract'') []) []))
        = (Raised, [Response [None]])"
    by (simp add: scripted_client_def)
  from per_entry_failure_recovered [OF nil this, of "[e2]"]
  have "process_entries scripted_client [Raised, Response [None]] [e1, e2] [] [] =
      Inr ([\<lparr>status = py ''not-sure'', criteria = py ''api-error'',
             reasoning = py ''Evaluation failed'', citekey = py ''k1'', title = []\<rparr>,
            \<lparr>status = py ''not-sure'', criteria = py ''parse-error'',
             reasoning = py ''Response parsing failed'', citekey = py ''k2'',
             title = []\<rparr>], [])"
    by (simp add: second get1)
  then show ?thesis by (simp only: e1_def e2_def)
qed

text \<open>
  C10. An entry may lack \<open>ID\<close>, \<open>title\<close> or \<open>abstract\<close>: the pipeline still returns a
  verdict for it and goes on. The prompt sent to the service is built with the empty
  string in place of a missing title or abstract, the verdict carries the empty string
  for a missing title and \<open>N/A\<close> for a missing identifier, and a field that is present
  is used as it is.
\<close>

theorem missing_fields_tolerated:
  fixes entry :: entry
  shows "\<exists>response w' vs w''.
     client w (chat_request m
        (build_prompt (case entry (py ''title'') of None \<Rightarrow> [] | Some t \<Rightarrow> t)
                      (case entry (py ''abstract'') of None \<Rightarrow> [] | Some a \<Rightarrow> a) c))
       = (response, w') \<and>
     process_entries client w' entries c m = Inr (vs, w'') \<and>
     (\<exists>v. process_entries client w (entry # entries) c m = Inr (v # vs, w'') \<and>
          citekey v = (case entry (py ''ID'') of None \<Rightarrow> py ''N/A'' | Some k \<Rightarrow> k) \<and>
          title v = (case entry (py ''title'') of None \<Rightarrow> [] | Some t \<Rightarrow> t) \<and>
          evaluation.truncate v =
            (case response of
               Raised \<Rightarrow> api_error_verdict
             | Response [] \<Rightarrow> api_error_verdict
             | Response (content # _) \<Rightarrow> parse_response content))"
proof -
  let ?t = "case entry (py ''title'') of None \<Rightarrow> [] | Some t \<Rightarrow> t"
  let ?a = "case entry (py ''abstract'') of None \<Rightarrow> [] | Some a \<Rightarrow> a"
  obtain response w' where call:
    "client w (chat_request m (build_prompt ?t ?a c)) = (response, w')"
    by (cases "client w (chat_request m (build_prompt ?t ?a c))")
  obtain vs w'' where rest: "process_entries client w' entries c m = Inr (vs, w'')"
    using process_entries_returns [of client w' entries c m] by auto
  have ev: "evaluate_entry client w ?t ?a c m =
      ((case response of
          Raised \<Rightarrow> api_error_verdict
        | Response [] \<Rightarrow> api_error_verdict
        | Response (content # _) \<Rightarrow> parse_response content), w')"
    using call by (simp add: evaluate_entry_def split: reply.splits list.splits)
  show ?thesis
    using call rest ev
    by (simp add: process_entries_Cons dict_get_def evaluation.truncate_def)
qed

theorem missing_fields_tolerated_witness:
  "\<exists>v. process_entries scripted_client [Raised] [Map.empty] [] [] = Inr ([v], [])
      \<and> citekey v = py ''N/A'' \<and> title v = []"
  using missing_fields_tolerated [of scripted_client "[Raised]" "[]" Map.empty "[]" "[]"]
  by (auto simp: scripted_client_def process_entries_Nil)

section \<open>The matcher on the three patterns\<close>

lemma rmatch_word:
  "rmatch flags (word w) (s, g) = (if lit_prefix flags w s then [(drop (length w) s, g)] else [])"
proof (induction w arbitrary: s)
  case Nil
  show ?case by (simp add: word_def)
next
  case (Cons c w)
  have w: "word (c # w) = Seq (Atom (Lit (of_char c))) (word w)"
    by (simp add: word_def)
  show ?case
    by (cases s) (simp_all add: w Cons.IH)
qed

lemma concat_upt_empty:
  "(\<And>n. n < k \<Longrightarrow> f n = []) \<Longrightarrow> concat (map f (rev [0..<k])) = []"
  by (induction k) auto

lemma rmatch_star_seq:
  "rmatch flags (Seq (Star a) r) (s, g) =
     rmatch flags r (dropWhile (atom_match flags a) s, g)
     @ concat (map (\<lambda>n. rmatch flags r (drop n s, g))
          (rev [0..<length (takeWhile (atom_match flags a) s)]))"
  by (simp add: comp_def dropWhile_eq_drop)

lemma rmatch_star_seq_det:
  assumes "\<And>c cs g'. atom_match flags a c \<Longrightarrow> rmatch flags r (c # cs, g') = []"
  shows "rmatch flags (Seq (Star a) r) (s, g) =
     rmatch flags r (dropWhile (atom_match flags a) s, g)"
proof -
  have "rmatch flags r (drop n s, g) = []"
    if "n < length (takeWhile (atom_match flags a) s)" for n
  proof -
    from that have n: "n < length s"
      by (meson length_takeWhile_le less_le_trans)
    from that have "atom_match flags a (s ! n)"
      by (metis nth_mem set_takeWhileD takeWhile_nth)
    moreover from n have "drop n s = s ! n # drop (Suc n) s"
      by (simp add: Cons_nth_drop_Suc)
    ultimately show ?thesis using assms by simp
  qed
  then show ?thesis
    by (simp only: rmatch_star_seq concat_upt_empty append_Nil2)
qed

lemma first_match_Nil: "first_match f [] = f []"
  by (simp split: option.splits)

lemma first_match_Cons:
  "first_match f (c # cs) = (case f (c # cs) of Some v \<Rightarrow> Some v | None \<Rightarrow> first_match f cs)"
  by (simp split: option.splits)

lemma re_search_first_match: "re_search r s flags = first_match (match_at flags r) s"
  by (induction s) (simp_all add: match_at_def split: list.splits)

declare re_search.simps [simp del] first_match.simps [simp del]

declare first_match_Nil [simp] first_match_Cons [simp]

lemma lit_prefix_length: "lit_prefix flags w s \<Longrightarrow> length w \<le> length s"
  by (induction flags w s rule: lit_prefix.induct) simp_all

lemma lit_prefix_no_flag: "IGNORECASE \<notin> set flags \<Longrightarrow> lit_prefix flags w s = lit_prefix [] w s"
  by (induction flags w s rule: lit_prefix.induct) (simp_all add: atom_match_def)

lemma space_not_letter:
  "py_isspace c \<Longrightarrow> 33 \<le> p \<Longrightarrow> p < 127 \<Longrightarrow> c \<notin> set (sre_case_variants p)"
  by (auto simp: py_isspace_def sre_case_variants_def Let_def)

lemma rmatch_seq_word:
  "rmatch flags (Seq (word w) r) (s, g) =
     (if lit_prefix flags w s then rmatch flags r (drop (length w) s, g) else [])"
  by (simp add: rmatch_word)

lemma Suc_numerals:
  "Suc (Suc 0) = 2"
  "Suc (Suc (Suc (Suc (Suc (Suc (Suc 0)))))) = 7"
  "Suc (Suc (Suc (Suc (Suc (Suc (Suc (Suc 0))))))) = 8"
  "Suc (Suc (Suc (Suc (Suc (Suc (Suc (Suc (Suc 0)))))))) = 9"
  "Suc (Suc (Suc (Suc (Suc (Suc (Suc (Suc (Suc (Suc 0))))))))) = 10"
  by simp_all

lemma match_at_status: "match_at [IGNORECASE] status_re s = map_option (\<lambda>v. [1 \<mapsto> v]) (status_line s)"
proof -
  let ?G = "Group 1 (Alt (word ''accepted'') (Alt (word ''rejected'') (word ''not-sure'')))"
  have nospace: "rmatch [IGNORECASE] ?G (c # cs, g') = []"
    if "atom_match [IGNORECASE] Space c" for c cs g'
  proof -
    from that have sp: "py_isspace c" by (simp add: atom_match_def)
    have "c \<notin> set (sre_case_variants 97)" "c \<notin> set (sre_case_variants 114)"
      "c \<notin> set (sre_case_variants 110)"
      using sp by (simp_all add: space_not_letter)
    then show ?thesis
      by (simp add: rmatch_word atom_match_def)
  qed
  have G: "rmatch [IGNORECASE] ?G (v, g) =
      (if lit_prefix [IGNORECASE] ''accepted'' v then [(drop 8 v, g(1 \<mapsto> take 8 v))] else [])
      @ (if lit_prefix [IGNORECASE] ''rejected'' v then [(drop 8 v, g(1 \<mapsto> take 8 v))] else [])
      @ (if lit_prefix [IGNORECASE] ''not-sure'' v then [(drop 8 v, g(1 \<mapsto> take 8 v))] else [])"
    for v g
    using lit_prefix_length [of "[IGNORECASE]" "''accepted''" v]
      lit_prefix_length [of "[IGNORECASE]" "''rejected''" v]
      lit_prefix_length [of "[IGNORECASE]" "''not-sure''" v]
    by (simp add: rmatch_word Suc_numerals)
  have sp: "atom_match [IGNORECASE] Space = py_isspace"
    by (rule ext) (simp add: atom_match_def)
  have star: "rmatch [IGNORECASE] (Seq (Star Space) ?G) (x, g) =
      rmatch [IGNORECASE] ?G (dropWhile py_isspace x, g)" for x g
    using rmatch_star_seq_det [of "[IGNORECASE]" Space ?G x g, OF nospace]
    by (simp only: sp)
  have "rmatch [IGNORECASE] status_re (s, g) =
      (if lit_prefix [IGNORECASE] ''Status:'' s
       then rmatch [IGNORECASE] ?G (dropWhile py_isspace (drop 7 s), g) else [])" for g
    unfolding status_re_def
    by (simp only: rmatch_seq_word star) (simp add: Suc_numerals)
  then show ?thesis
    by (simp add: match_at_def status_line_def G Let_def del: rmatch.simps One_nat_def)
qed

lemma first_match_map_option:
  "first_match (\<lambda>s. map_option h (f s)) s = map_option h (first_match f s)"
  by (induction s) (simp_all split: option.splits)

lemma first_match_cong:
  "(\<And>s. f s = f' s) \<Longrightarrow> first_match f s = first_match f' s"
  by (induction s) (simp_all split: option.splits)

lemma rmatch_plus:
  "rmatch flags (Plus a) (x, g) =
     (case x of
        [] \<Rightarrow> []
      | d # ds \<Rightarrow>
          if atom_match flags a d
          then (drop (length (takeWhile (atom_match flags a) ds)) ds, g)
               # map (\<lambda>n. (drop n ds, g)) (rev [0..<length (takeWhile (atom_match flags a) ds)])
          else [])"
  by (simp add: Plus_def split: list.splits)

lemma consumed_code:
  assumes "2 \<le> length v" and "drop 2 v = d # ds"
  shows "take (length v - (length ds - length (takeWhile P ds))) v =
         take 2 v @ d # takeWhile P ds"
proof -
  let ?k = "length (takeWhile P ds)"
  have v: "take 2 v @ d # ds = v"
    using assms(2) by (metis append_take_drop_id)
  have k: "?k \<le> length ds" by (rule length_takeWhile_le)
  have l2: "length (take 2 v) = 2" using assms(1) by simp
  have "length (take 2 v @ d # ds) = 2 + Suc (length ds)"
    by (simp only: length_append l2 length_Cons)
  then have "length v = 2 + Suc (length ds)" by (simp only: v)
  with k have n: "length v - (length ds - ?k) = 2 + Suc ?k" by simp
  have "take (2 + Suc ?k) (take 2 v @ d # ds) =
      take (2 + Suc ?k) (take 2 v) @ take (2 + Suc ?k - length (take 2 v)) (d # ds)"
    by (rule take_append)
  also have "take (2 + Suc ?k) (take 2 v) = take 2 v"
    by (rule take_all) (simp only: l2 le_add1)
  also have "2 + Suc ?k - length (take 2 v) = Suc ?k"
    by (simp only: l2 add_diff_cancel_left')
  also have "take (Suc ?k) (d # ds) = d # take ?k ds"
    by (rule take_Suc_Cons)
  also have "take ?k ds = takeWhile P ds"
    by (rule takeWhile_eq_take [symmetric])
  finally have f: "take (2 + Suc ?k) (take 2 v @ d # ds) = take 2 v @ d # takeWhile P ds" .
  have "take (2 + Suc ?k) v = take (2 + Suc ?k) (take 2 v @ d # ds)"
    by (rule arg_cong [OF v [symmetric]])
  from this f have "take (2 + Suc ?k) v = take 2 v @ d # takeWhile P ds"
    by (rule trans)
  then show ?thesis by (simp only: n)
qed

lemma match_at_criteria:
  "map_option (\<lambda>m. m 1) (match_at [] criteria_re s) = map_option Some (criteria_code s)"
proof -
  let ?A = "Alt (word ''CI'') (word ''CX'')"
  let ?G = "Group 1 (Seq (Group 2 ?A) (Plus Digit))"
  have dig: "atom_match [] Digit = py_isdecimal"
    by (rule ext) (simp add: atom_match_def)
  have sp: "atom_match [] Space = py_isspace"
    by (rule ext) (simp add: atom_match_def)
  have nospace: "rmatch [] ?G (c # cs, g') = []" if "atom_match [] Space c" for c cs g'
  proof -
    from that have "c \<noteq> 67" by (auto simp: atom_match_def py_isspace_def)
    then show ?thesis by (simp add: rmatch_word atom_match_def)
  qed
  have star: "rmatch [] (Seq (Star Space) ?G) (x, g) =
      rmatch [] ?G (dropWhile py_isspace x, g)" for x g
    using rmatch_star_seq_det [of "[]" Space ?G x g, OF nospace]
    by (simp only: sp)
  have G: "(case rmatch [] ?G (v, g) of [] \<Rightarrow> None | m # _ \<Rightarrow> Some (snd m 1)) =
      (if (lit_prefix [] ''CI'' v \<or> lit_prefix [] ''CX'' v)
          \<and> list_ex py_isdecimal (take 1 (drop 2 v))
       then Some (Some (take 2 v @ takeWhile py_isdecimal (drop 2 v))) else None)" for v g
  proof (cases "lit_prefix [] ''CI'' v \<or> lit_prefix [] ''CX'' v")
    case False
    then show ?thesis by (simp add: rmatch_word)
  next
    case True
    then have len: "2 \<le> length v"
      using lit_prefix_length [of "[]" "''CI''" v] lit_prefix_length [of "[]" "''CX''" v]
      by auto
    show ?thesis
    proof (cases "drop 2 v")
      case Nil
      with True show ?thesis
        by (auto simp: rmatch_word rmatch_plus Suc_numerals)
    next
      case (Cons d ds)
      note cc = consumed_code [OF len Cons, of py_isdecimal]
      from True Cons show ?thesis
        by (auto simp: rmatch_word rmatch_plus Suc_numerals dig cc)
    qed
  qed
  have "rmatch [] criteria_re (s, g) =
      (if lit_prefix [] ''Criteria:'' s
       then rmatch [] ?G (dropWhile py_isspace (drop 9 s), g) else [])" for g
    unfolding criteria_re_def
    by (simp only: rmatch_seq_word star) (simp add: Suc_numerals)
  then have "map_option (\<lambda>m. m 1) (match_at [] criteria_re s) =
      (if lit_prefix [] ''Criteria:'' s
       then (case rmatch [] ?G (dropWhile py_isspace (drop 9 s), Map.empty) of
               [] \<Rightarrow> None | m # _ \<Rightarrow> Some (snd m 1))
       else None)"
    by (simp add: match_at_def del: rmatch.simps One_nat_def split: list.splits)
  then show ?thesis
    by (simp only: G criteria_code_def Let_def) simp
qed

lemma match_at_reasoning:
  "match_at [DOTALL] reasoning_re s = map_option (\<lambda>v. [1 \<mapsto> v]) (reasoning_text s)"
proof -
  let ?G = "Group 1 (Star Dot)"
  have sp: "atom_match [DOTALL] Space = py_isspace"
    by (rule ext) (simp add: atom_match_def)
  have dot: "takeWhile (atom_match [DOTALL] Dot) x = x" for x
    by (simp add: atom_match_def)
  have G: "rmatch [DOTALL] ?G (x, g) =
      ([], g(1 \<mapsto> x)) # map (\<lambda>n. (drop n x, g(1 \<mapsto> take n x))) (rev [0..<length x])" for x g
    by (simp add: dot comp_def)
  have "rmatch [DOTALL] reasoning_re (s, g) =
      (if lit_prefix [] ''Reasoning:'' s
       then rmatch [DOTALL] (Seq (Star Space) ?G) (drop 10 s, g) else [])" for g
    unfolding reasoning_re_def
    by (simp only: rmatch_seq_word lit_prefix_no_flag [of "[DOTALL]", simplified])
      (simp add: Suc_numerals)
  then show ?thesis
    by (simp add: match_at_def reasoning_text_def rmatch_star_seq G sp
        del: rmatch.simps One_nat_def)
qed

lemma parse_response_closed_form:
  "parse_response (Some text) =
     \<lparr>status = (case first_match status_line text of
                  Some v \<Rightarrow> py_lower v | None \<Rightarrow> py ''not-sure''),
      criteria = (case first_match criteria_code text of
                    Some c \<Rightarrow> c | None \<Rightarrow> py ''not-specified''),
      reasoning = (case first_match reasoning_text text of
                     Some r \<Rightarrow> py_strip r | None \<Rightarrow> [])\<rparr>"
proof -
  have st: "re_search status_re text [IGNORECASE] =
      map_option (\<lambda>v. [1 \<mapsto> v]) (first_match status_line text)"
    unfolding re_search_first_match first_match_map_option [symmetric]
    by (rule first_match_cong) (rule match_at_status)
  have rs: "re_search reasoning_re text [DOTALL] =
      map_option (\<lambda>v. [1 \<mapsto> v]) (first_match reasoning_text text)"
    unfolding re_search_first_match first_match_map_option [symmetric]
    by (rule first_match_cong) (rule match_at_reasoning)
  have "map_option (\<lambda>m. m 1) (re_search criteria_re text []) =
      first_match (\<lambda>s. map_option (\<lambda>m. m 1) (match_at [] criteria_re s)) text"
    by (simp only: re_search_first_match first_match_map_option)
  also have "\<dots> = first_match (\<lambda>s. map_option Some (criteria_code s)) text"
    by (rule first_match_cong) (rule match_at_criteria)
  also have "\<dots> = map_option Some (first_match criteria_code text)"
    by (rule first_match_map_option)
  finally have cr: "map_option (\<lambda>m. m 1) (re_search criteria_re text []) =
      map_option Some (first_match criteria_code text)" .
  show ?thesis
  proof (cases "re_search criteria_re text []")
    case None
    with cr have "first_match criteria_code text = None" by simp
    with None show ?thesis
      by (simp add: parse_response_def parse_response_body_def st rs group_method_def
          del: re_search.simps split: option.splits)
  next
    case (Some m)
    with cr obtain c where "first_match criteria_code text = Some c" "m 1 = Some c"
      by (cases "first_match criteria_code text") auto
    with Some show ?thesis
      by (simp add: parse_response_def parse_response_body_def st rs group_method_def
          del: re_search.simps split: option.splits)
  qed
qed

text \<open>Group 1 takes part in every match of each of the three patterns.\<close>

lemma criteria_group_defined:
  assumes "re_search criteria_re text [] = Some m"
  shows "m 1 \<noteq> None"
proof -
  have "map_option (\<lambda>m. m 1) (re_search criteria_re text []) =
      first_match (\<lambda>s. map_option (\<lambda>m. m 1) (match_at [] criteria_re s)) text"
    by (simp only: re_search_first_match first_match_map_option)
  also have "\<dots> = first_match (\<lambda>s. map_option Some (criteria_code s)) text"
    by (rule first_match_cong) (rule match_at_criteria)
  also have "\<dots> = map_option Some (first_match criteria_code text)"
    by (rule first_match_map_option)
  finally show ?thesis
    using assms by (cases "first_match criteria_code text") auto
qed

lemma status_group_defined:
  assumes "re_search status_re text [IGNORECASE] = Some m"
  shows "m 1 \<noteq> None"
proof -
  have "re_search status_re text [IGNORECASE] =
      map_option (\<lambda>v. [1 \<mapsto> v]) (first_match status_line text)"
    unfolding re_search_first_match first_match_map_option [symmetric]
    by (rule first_match_cong) (rule match_at_status)
  with assms show ?thesis
    by (cases "first_match status_line text") auto
qed

lemma reasoning_group_defined:
  assumes "re_search reasoning_re text [DOTALL] = Some m"
  shows "m 1 \<noteq> None"
proof -
  have "re_search reasoning_re text [DOTALL] =
      map_option (\<lambda>v. [1 \<mapsto> v]) (first_match reasoning_text text)"
    unfolding re_search_first_match first_match_map_option [symmetric]
    by (rule first_match_cong) (rule match_at_reasoning)
  with assms show ?thesis
    by (cases "first_match reasoning_text text") auto
qed

section \<open>Letter case in the status search\<close>

lemma lower_eq_cases:
  "py_lower_char c = py_lower_char d \<Longrightarrow> c = d \<or> (cased c \<and> cased d)"
  unfolding py_lower_char_def cased_def
  by (simp split: if_splits; arith)

lemma cased_not_space: "cased x \<Longrightarrow> \<not> py_isspace x"
  unfolding cased_def py_isspace_def by arith

lemma lower_isspace:
  "py_lower_char c = py_lower_char d \<Longrightarrow> py_isspace c = py_isspace d"
  using lower_eq_cases [of c d] cased_not_space [of c] cased_not_space [of d] by blast



lemma variants_letter:
  "97 \<le> lo \<Longrightarrow> lo \<le> 122 \<Longrightarrow>
     c \<in> set ([lo - 32, lo] @ (if lo = 105 then [304, 305] else if lo = 107 then [8490]
         else if lo = 115 then [383] else []))
     \<longleftrightarrow> py_lower_char c = lo \<or> (lo = 105 \<and> (c = 304 \<or> c = 305)) \<or> (lo = 115 \<and> c = 383)"
  unfolding py_lower_char_def
  by (simp split: if_splits) arith

lemma lower_variants:
  assumes e: "py_lower_char c = py_lower_char d" and p: "p < 128"
  shows "c \<in> set (sre_case_variants p) \<longleftrightarrow> d \<in> set (sre_case_variants p)"
proof -
  define lo where "lo = (if 65 \<le> p \<and> p \<le> 90 then p + 32 else p)"
  note cd = lower_eq_cases [OF e]
  have fixed: "c = 304 \<longleftrightarrow> d = 304" "c = 305 \<longleftrightarrow> d = 305" "c = 383 \<longleftrightarrow> d = 383"
    using cd by (auto simp: cased_def)
  show ?thesis
  proof (cases "97 \<le> lo \<and> lo \<le> 122")
    case True
    then have V: "sre_case_variants p =
        [lo - 32, lo] @ (if lo = 105 then [304, 305] else if lo = 107 then [8490]
         else if lo = 115 then [383] else [])"
      by (simp add: sre_case_variants_def lo_def Let_def)
    from True have lo: "97 \<le> lo" "lo \<le> 122" by simp_all
    show ?thesis
      unfolding V variants_letter [OF lo] e fixed ..
  next
    case False
    then have V: "sre_case_variants p = [p]"
      by (simp add: sre_case_variants_def lo_def Let_def)
    from False p have "\<not> cased p"
      unfolding lo_def cased_def by (simp split: if_splits)
    with cd have "c = p \<longleftrightarrow> d = p" by blast
    then show ?thesis by (simp add: V)
  qed
qed


lemma lower_lit_prefix:
  "py_lower a = py_lower b \<Longrightarrow> list_all (\<lambda>c. (of_char c :: nat) < 128) w \<Longrightarrow>
     lit_prefix [IGNORECASE] w a = lit_prefix [IGNORECASE] w b"
proof (induction w arbitrary: a b)
  case Nil
  show ?case by simp
next
  case (Cons c w)
  show ?case
  proof (cases a)
    case Nil
    with Cons.prems show ?thesis by (simp add: py_lower_def)
  next
    case a: (Cons x xs)
    with Cons.prems obtain y ys where b: "b = y # ys"
      and xy: "py_lower_char x = py_lower_char y" and rest: "py_lower xs = py_lower ys"
      by (cases b) (auto simp: py_lower_def)
    from Cons.prems have c: "(of_char c :: nat) < 128" and w: "list_all (\<lambda>c. (of_char c :: nat) < 128) w"
      by simp_all
    show ?thesis
      using lower_variants [OF xy c] Cons.IH [OF rest w]
      by (simp add: a b atom_match_def)
  qed
qed

lemma lower_drop: "py_lower a = py_lower b \<Longrightarrow> py_lower (drop n a) = py_lower (drop n b)"
  by (simp add: py_lower_def drop_map [symmetric])

lemma lower_take: "py_lower a = py_lower b \<Longrightarrow> py_lower (take n a) = py_lower (take n b)"
  by (simp add: py_lower_def take_map [symmetric])

lemma lower_dropWhile:
  "py_lower a = py_lower b \<Longrightarrow>
     py_lower (dropWhile py_isspace a) = py_lower (dropWhile py_isspace b)"
proof (induction a arbitrary: b)
  case Nil
  then have "b = []" by (simp add: py_lower_def)
  then show ?case by simp
next
  case (Cons x xs)
  from Cons.prems obtain y ys where b: "b = y # ys"
    and xy: "py_lower_char x = py_lower_char y" and rest: "py_lower xs = py_lower ys"
    by (cases b) (auto simp: py_lower_def)
  note sp = lower_isspace [OF xy]
  show ?case
  proof (cases "py_isspace x")
    case True
    with sp have "py_isspace y" by simp
    with True show ?thesis
      unfolding b using Cons.IH [OF rest] by simp
  next
    case False
    with sp have "\<not> py_isspace y" by simp
    with False show ?thesis
      unfolding b using Cons.prems [unfolded b] by simp
  qed
qed

lemma lower_status_line:
  assumes "py_lower a = py_lower b"
  shows "map_option py_lower (status_line a) = map_option py_lower (status_line b)"
proof -
  define va where "va = dropWhile py_isspace (drop 7 a)"
  define vb where "vb = dropWhile py_isspace (drop 7 b)"
  have v: "py_lower va = py_lower vb"
    unfolding va_def vb_def by (intro lower_dropWhile lower_drop assms)
  have k: "lit_prefix [IGNORECASE] ''Status:'' a = lit_prefix [IGNORECASE] ''Status:'' b"
    by (rule lower_lit_prefix [OF assms]) simp
  have w1: "lit_prefix [IGNORECASE] ''accepted'' va = lit_prefix [IGNORECASE] ''accepted'' vb"
    by (rule lower_lit_prefix [OF v]) simp
  have w2: "lit_prefix [IGNORECASE] ''rejected'' va = lit_prefix [IGNORECASE] ''rejected'' vb"
    by (rule lower_lit_prefix [OF v]) simp
  have w3: "lit_prefix [IGNORECASE] ''not-sure'' va = lit_prefix [IGNORECASE] ''not-sure'' vb"
    by (rule lower_lit_prefix [OF v]) simp
  have t: "py_lower (take 8 va) = py_lower (take 8 vb)"
    by (rule lower_take [OF v])
  have sa: "status_line a =
      (if lit_prefix [IGNORECASE] ''Status:'' a \<and>
          (lit_prefix [IGNORECASE] ''accepted'' va \<or> lit_prefix [IGNORECASE] ''rejected'' va
           \<or> lit_prefix [IGNORECASE] ''not-sure'' va)
       then Some (take 8 va) else None)"
    by (auto simp: status_line_def Let_def va_def)
  have sb: "status_line b =
      (if lit_prefix [IGNORECASE] ''Status:'' b \<and>
          (lit_prefix [IGNORECASE] ''accepted'' vb \<or> lit_prefix [IGNORECASE] ''rejected'' vb
           \<or> lit_prefix [IGNORECASE] ''not-sure'' vb)
       then Some (take 8 vb) else None)"
    by (auto simp: status_line_def Let_def vb_def)
  show ?thesis
    unfolding sa sb k w1 w2 w3
    by (cases "lit_prefix [IGNORECASE] ''Status:'' b \<and>
          (lit_prefix [IGNORECASE] ''accepted'' vb \<or> lit_prefix [IGNORECASE] ''rejected'' vb
           \<or> lit_prefix [IGNORECASE] ''not-sure'' vb)")
      (simp_all add: t)
qed

lemma lower_first_status:
  "py_lower a = py_lower b \<Longrightarrow>
     map_option py_lower (first_match status_line a) =
     map_option py_lower (first_match status_line b)"
proof (induction a arbitrary: b)
  case Nil
  then have "b = []" by (simp add: py_lower_def)
  then show ?case by simp
next
  case (Cons x xs)
  from Cons.prems obtain y ys where b: "b = y # ys" and rest: "py_lower xs = py_lower ys"
    by (cases b) (auto simp: py_lower_def)
  from Cons.prems have here: "map_option py_lower (status_line (x # xs)) =
      map_option py_lower (status_line (y # ys))"
    unfolding b by (rule lower_status_line)
  show ?case
    using here Cons.IH [OF rest]
    by (auto simp: b split: option.splits)
qed

lemma status_case_insensitive:
  assumes "py_lower a = py_lower b"
  shows "status (parse_response (Some a)) = status (parse_response (Some b))"
proof -
  have "status (parse_response (Some t)) =
      (case map_option py_lower (first_match status_line t) of
         Some v \<Rightarrow> v | None \<Rightarrow> py ''not-sure'')" for t
    by (cases "first_match status_line t") (simp_all add: parse_response_closed_form)
  then show ?thesis
    by (simp only: lower_first_status [OF assms])
qed

lemma lower_ascii_lower: "py_lower_char (ascii_lower c) = py_lower_char c"
  by (simp add: py_lower_char_def ascii_lower_def)

lemma ascii_lower_eq_lower:
  assumes "map ascii_lower a = map ascii_lower b"
  shows "py_lower a = py_lower b"
proof -
  have "py_lower t = map py_lower_char (map ascii_lower t)" for t
    by (simp add: py_lower_def lower_ascii_lower)
  then show ?thesis by (simp only: assms)
qed

lemmas char_tables = py_def atom_match_def sre_case_variants_def py_isspace_def
  py_isdecimal_def unicode_nd_ranges_def py_lower_def py_lower_char_def py_strip_def

lemmas pattern_defs = status_line_def criteria_code_def reasoning_text_def

section \<open>Properties of the response parser\<close>

text \<open>
  C3. \<open>parse_response\<close> finds each of the three fields on its own, and each has its
  own default. The status is the lower-cased value of the first status line of the
  text, and \<open>not-sure\<close> when the text has none. The criteria code is the first code
  after \<open>Criteria:\<close>, and \<open>not-specified\<close> when there is none. The reasoning is the
  stripped text after the first \<open>Reasoning:\<close>, and empty when there is none. A text with
  none of the three gives the three defaults, and the text
  \<open>Status: accepted / Criteria: CI3 / Reasoning: fits well\<close> on three lines gives
  \<open>accepted\<close>, \<open>CI3\<close> and \<open>fits well\<close>.
\<close>

theorem parse_response_fields:
  "status (parse_response (Some text)) =
     (case first_match status_line text of
        Some v \<Rightarrow> py_lower v | None \<Rightarrow> py ''not-sure'')
   \<and> criteria (parse_response (Some text)) =
     (case first_match criteria_code text of
        Some c \<Rightarrow> c | None \<Rightarrow> py ''not-specified'')
   \<and> reasoning (parse_response (Some text)) =
     (case first_match reasoning_text text of
        Some r \<Rightarrow> py_strip r | None \<Rightarrow> [])
   \<and> (first_match status_line text = None \<and> first_match criteria_code text = None
        \<and> first_match reasoning_text text = None \<longrightarrow>
      parse_response (Some text) =
        \<lparr>status = py ''not-sure'', criteria = py ''not-specified'', reasoning = []\<rparr>)
   \<and> parse_response (Some (py ''Status: accepted'' @ [10] @ py ''Criteria: CI3'' @ [10]
          @ py ''Reasoning: fits well'')) =
        \<lparr>status = py ''accepted'', criteria = py ''CI3'', reasoning = py ''fits well''\<rparr>"
proof -
  have ex: "parse_response (Some (py ''Status: accepted'' @ [10] @ py ''Criteria: CI3'' @ [10]
          @ py ''Reasoning: fits well'')) =
        \<lparr>status = py ''accepted'', criteria = py ''CI3'', reasoning = py ''fits well''\<rparr>"
    by (simp add: parse_response_closed_form pattern_defs char_tables)
  show ?thesis
    by (simp only: ex) (simp add: parse_response_closed_form)
qed

theorem parse_response_fields_witness:
  "parse_response (Some (py ''I cannot tell.'')) =
     \<lparr>status = py ''not-sure'', criteria = py ''not-specified'', reasoning = []\<rparr>"
proof -
  have "first_match status_line (py ''I cannot tell.'') = None"
    "first_match criteria_code (py ''I cannot tell.'') = None"
    "first_match reasoning_text (py ''I cannot tell.'') = None"
    by (simp_all add: pattern_defs char_tables)
  with parse_response_fields [of "py ''I cannot tell.''"] show ?thesis by blast
qed

text \<open>
  C4, as stated, fails. Only the status pattern is compiled with \<open>re.IGNORECASE\<close>.
  The texts \<open>Criteria: ci3\<close> and \<open>Criteria: CI3\<close> differ in letter case alone, yet
  the first gives \<open>not-specified\<close> and the second \<open>CI3\<close>; the keywords \<open>criteria:\<close>
  and \<open>reasoning:\<close> in lower case are not found either.
\<close>

theorem criteria_search_case_sensitive:
  "py_lower (py ''Criteria: ci3'') = py_lower (py ''Criteria: CI3'')
   \<and> criteria (parse_response (Some (py ''Criteria: ci3''))) = py ''not-specified''
   \<and> criteria (parse_response (Some (py ''Criteria: CI3''))) = py ''CI3''
   \<and> criteria (parse_response (Some (py ''criteria: CI3''))) = py ''not-specified''
   \<and> reasoning (parse_response (Some (py ''reasoning: fits''))) = []
   \<and> reasoning (parse_response (Some (py ''Reasoning: fits''))) = py ''fits''"
  by (simp add: parse_response_closed_form pattern_defs char_tables)

text \<open>
  C4, amended. The search for the status ignores the case of ASCII letters: two texts
  that differ only in the case of the letters \<open>A\<close> to \<open>Z\<close> give the same status, and
  \<open>status: REJECTED\<close> gives \<open>rejected\<close>. The criteria and the reasoning patterns are
  matched in the case in which they are written: \<open>ci3\<close> after \<open>Criteria:\<close>, and the
  keywords \<open>criteria:\<close> and \<open>reasoning:\<close> in lower case, are not found. A change of
  case outside ASCII can change the status: the long s, U+017F, matches the \<open>s\<close> of
  the pattern and stays as it is in the status, while its upper case is \<open>S\<close>, so
  \<open>Status: not-\<close> U+017F \<open>ure\<close> and \<open>STATUS: NOT-SURE\<close> give different statuses.
\<close>

theorem status_search_ignores_ascii_case:
  "(map ascii_lower a = map ascii_lower b \<longrightarrow>
      status (parse_response (Some a)) = status (parse_response (Some b)))
   \<and> status (parse_response (Some (py ''status: REJECTED''))) = py ''rejected''
   \<and> criteria (parse_response (Some (py ''Criteria: ci3''))) = py ''not-specified''
   \<and> criteria (parse_response (Some (py ''criteria: CI3''))) = py ''not-specified''
   \<and> reasoning (parse_response (Some (py ''reasoning: fits''))) = []
   \<and> status (parse_response (Some (py ''Status: not-'' @ [383] @ py ''ure''))) =
       py ''not-'' @ [383] @ py ''ure''
   \<and> status (parse_response (Some (py ''STATUS: NOT-SURE''))) = py ''not-sure''"
proof -
  have 1: "map ascii_lower a = map ascii_lower b \<longrightarrow>
      status (parse_response (Some a)) = status (parse_response (Some b))"
    using status_case_insensitive [OF ascii_lower_eq_lower, of a b] by (rule impI)
  have 2: "status (parse_response (Some (py ''status: REJECTED''))) = py ''rejected''
   \<and> criteria (parse_response (Some (py ''Criteria: ci3''))) = py ''not-specified''
   \<and> criteria (parse_response (Some (py ''criteria: CI3''))) = py ''not-specified''
   \<and> reasoning (parse_response (Some (py ''reasoning: fits''))) = []
   \<and> status (parse_response (Some (py ''Status: not-'' @ [383] @ py ''ure''))) =
       py ''not-'' @ [383] @ py ''ure''
   \<and> status (parse_response (Some (py ''STATUS: NOT-SURE''))) = py ''not-sure''"
    by (simp add: parse_response_closed_form pattern_defs char_tables)
  from 1 2 show ?thesis by (rule conjI)
qed

theorem status_search_ignores_ascii_case_witness:
  "status (parse_response (Some (py ''STATUS:   Accepted''))) =
   status (parse_response (Some (py ''status:   accepted'')))"
proof -
  have "map ascii_lower (py ''STATUS:   Accepted'') = map ascii_lower (py ''status:   accepted'')"
    by (simp add: ascii_lower_def py_def)
  with status_search_ignores_ascii_case
    [of "py ''STATUS:   Accepted''" "py ''status:   accepted''"]
  show ?thesis by blast
qed

section \<open>Properties of the statistics reporter\<close>

text \<open>
  C6. On an empty list of verdicts \<open>calculate_statistics\<close> has no guard: the first
  share it computes divides by the length of the list and raises
  \<open>ZeroDivisionError\<close>. A bibliography without entries reaches this: the results table is
  written, then the statistics raise and \<open>process_bib\<close> raises in turn.
\<close>

theorem statistics_of_nothing_divides_by_zero:
  "calculate_statistics [] = Inl ZeroDivisionError
   \<and> process_bib \<lparr>bib_load = \<lambda>text. Inr [], bib_dump = \<lambda>entries. Inr []\<rparr>
        scripted_client [] (py ''gpt-4o-mini'') (\<lambda>path. Content [])
        (py ''input.bib'') (py ''results.csv'') (py ''criteria.md'') = Inl ZeroDivisionError"
proof -
  have stat: "calculate_statistics [] = Inl ZeroDivisionError"
    by (simp add: calculate_statistics_def initial_counts_def share_line_def py_def)
  have "utf8_encodable (results_table [])"
    by (simp add: utf8_encodable_def results_table_def csv_writerow_def fieldnames_def
        csv_field_def csv_special_def py_def)
  then show ?thesis
    by (simp add: stat process_bib_def load_criteria_def load_bib_entries_def read_text_def
        process_entries_Nil write_results_to_csv_def write_text_def)
qed

section \<open>Exit status of the two tools\<close>

text \<open>
  C7. When no file exists, \<open>process_bib\<close> raises \<open>FileNotFoundError\<close>, and the entry
  point of the evaluation tool ends with exit status 0 all the same; the entry point of
  the filter ends with exit status 1.
\<close>

theorem fatal_error_exit_status:
  "process_bib lib client w MODEL_NAME (\<lambda>path. Absent) input_path output_path criteria_path
     = Inl FileNotFoundError
   \<and> survey_classifier_main lib client w MODEL_NAME (\<lambda>path. Absent)
        input_path output_path criteria_path = 0
   \<and> generate_accepted_bib_main lib (\<lambda>path. Absent) original_bib results_csv output_file = 1"
  by (simp add: process_bib_def load_criteria_def read_text_def survey_classifier_main_def
      generate_accepted_bib_main_def create_accepted_bib_def read_results_def)

section \<open>The status values that the pipeline produces\<close>

text \<open>
  C9. Under \<open>re.IGNORECASE\<close> the letter \<open>s\<close> of the pattern also matches U+017F, the
  long s, and \<open>str.lower\<close> leaves that code point as it is. For the reply
  \<open>Status: not-\<close> U+017F \<open>ure\<close> the pipeline produces a verdict whose status is none
  of \<open>accepted\<close>, \<open>rejected\<close>, \<open>not-sure\<close>, and on that verdict the count lookup of
  \<open>calculate_statistics\<close> raises \<open>KeyError\<close>.
\<close>

theorem long_s_status_escapes:
  "process_entries scripted_client [Response [Some (py ''Status: not-'' @ [383] @ py ''ure'')]]
     [[py ''ID'' \<mapsto> py ''k1'']] [] [] =
     Inr ([\<lparr>status = py ''not-'' @ [383] @ py ''ure'', criteria = py ''not-specified'',
            reasoning = [], citekey = py ''k1'', title = []\<rparr>], [])
   \<and> calculate_statistics
       [\<lparr>status = py ''not-'' @ [383] @ py ''ure'', criteria = py ''not-specified'',
         reasoning = [], citekey = py ''k1'', title = []\<rparr>] = Inl KeyError"
proof -
  have p: "parse_response (Some (py ''Status: not-'' @ [383] @ py ''ure'')) =
      \<lparr>status = py ''not-'' @ [383] @ py ''ure'', criteria = py ''not-specified'',
       reasoning = []\<rparr>"
    by (simp add: parse_response_closed_form pattern_defs char_tables)
  have e: "evaluate_entry scripted_client
      [Response [Some (py ''Status: not-'' @ [383] @ py ''ure'')]] t a c m =
      (parse_response (Some (py ''Status: not-'' @ [383] @ py ''ure'')), [])" for t a c m
    by (simp add: evaluate_entry_def scripted_client_def)
  have g: "dict_get [py ''ID'' \<mapsto> py ''k1''] (py ''ID'') (py ''N/A'') = py ''k1''"
    "dict_get [py ''ID'' \<mapsto> py ''k1''] (py ''title'') [] = []"
    by (simp_all add: dict_get_def py_def)
  have 1: "process_entries scripted_client
      [Response [Some (py ''Status: not-'' @ [383] @ py ''ure'')]]
      [[py ''ID'' \<mapsto> py ''k1'']] [] [] =
      Inr ([\<lparr>status = py ''not-'' @ [383] @ py ''ure'', criteria = py ''not-specified'',
            reasoning = [], citekey = py ''k1'', title = []\<rparr>], [])"
    by (simp only: process_entries_Cons e p g process_entries_Nil) simp
  have 2: "calculate_statistics
       [\<lparr>status = py ''not-'' @ [383] @ py ''ure'', criteria = py ''not-specified'',
         reasoning = [], citekey = py ''k1'', title = []\<rparr>] = Inl KeyError"
    by (simp add: calculate_statistics_def initial_counts_def py_def)
  from 1 2 show ?thesis by (rule conjI)
qed

section \<open>Properties of the bibliography filter\<close>

lemma accepted_keys_loop_sound:
  "accepted_keys_loop acc rows = Inr K \<Longrightarrow>
     Some k \<in> K \<longleftrightarrow>
       Some k \<in> acc \<or>
       list_ex (\<lambda>row.
         (case row (py ''status'') of
            Some (Some s) \<Rightarrow> py_lower s = py ''accepted''
          | _ \<Rightarrow> False)
         \<and> row (py ''citekey'') = Some (Some k)) rows"
proof (induction rows arbitrary: acc)
  case Nil
  then show ?case by simp
next
  case (Cons row rows)
  show ?case
  proof (cases "row (py ''status'')")
    case None
    with Cons.prems show ?thesis by simp
  next
    case (Some v)
    show ?thesis
    proof (cases v)
      case None
      with Some Cons.prems show ?thesis by simp
    next
      case s: (Some s)
      show ?thesis
      proof (cases "py_lower s = py ''accepted''")
        case False
        with Some s Cons.prems have "accepted_keys_loop acc rows = Inr K" by simp
        from Cons.IH [OF this] Some s False show ?thesis by simp
      next
        case True
        with Some s Cons.prems obtain key where key: "row (py ''citekey'') = Some key"
          and rest: "accepted_keys_loop (insert key acc) rows = Inr K"
          by (cases "row (py ''citekey'')") simp_all
        from Cons.IH [OF rest] Some s True key show ?thesis by auto
      qed
    qed
  qed
qed

lemma accepted_keys_loop_total:
  "list_all (\<lambda>row. (\<exists>s. row (py ''status'') = Some (Some s)) \<and> row (py ''citekey'') \<noteq> None) rows
     \<Longrightarrow> \<exists>K. accepted_keys_loop acc rows = Inr K"
  by (induction rows arbitrary: acc) auto

lemma filter_accepted_keys:
  assumes "accepted_keys_loop {} rows = Inr K"
  shows "filter (\<lambda>entry. Some (dict_get entry (py ''ID'') []) \<in> K) entries =
         filter (accepted_in rows) entries"
proof (rule filter_cong [OF refl])
  fix entry :: entry
  show "(Some (dict_get entry (py ''ID'') []) \<in> K) = accepted_in rows entry"
    using accepted_keys_loop_sound [OF assms, of "dict_get entry (py ''ID'') []"]
    by (simp add: accepted_in_def)
qed

lemma entries_to_bibtex_concat:
  "map entry_to_bibtex es = map Inr texts \<Longrightarrow> entries_to_bibtex es = Inr (concat texts)"
proof (induction es arbitrary: texts)
  case Nil
  then show ?case by simp
next
  case (Cons e es)
  from Cons.prems obtain t ts where texts: "texts = t # ts"
    and t: "entry_to_bibtex e = Inr t" and ts: "map entry_to_bibtex es = map Inr ts"
    by (cases texts) simp_all
  from Cons.IH [OF ts] t show ?case by (simp add: texts)
qed

lemma entries_to_bibtex_split:
  "entries_to_bibtex es = Inr out \<Longrightarrow>
     \<exists>texts. map entry_to_bibtex es = map Inr texts \<and> out = concat texts"
proof (induction es arbitrary: out)
  case Nil
  then show ?case by simp
next
  case (Cons e es)
  from Cons.prems obtain t where t: "entry_to_bibtex e = Inr t"
    by (cases "entry_to_bibtex e") simp_all
  from Cons.prems t obtain r where r: "entries_to_bibtex es = Inr r" and out: "out = t @ r"
    by (cases "entries_to_bibtex es") simp_all
  from Cons.IH [OF r] obtain ts where ts: "map entry_to_bibtex es = map Inr ts"
    and rr: "r = concat ts" by blast
  have "map entry_to_bibtex (e # es) = map Inr (t # ts) \<and> out = concat (t # ts)"
    by (simp add: t ts out rr)
  then show ?case by (rule exI)
qed

lemma entries_to_bibtex_texts:
  "entries_to_bibtex es = Inr out \<longleftrightarrow>
     (\<exists>texts. map entry_to_bibtex es = map Inr texts \<and> out = concat texts)"
  using entries_to_bibtex_concat [of es] entries_to_bibtex_split [of es out] by blast

lemma create_accepted_bib_dumps:
  assumes "read_results fs results_csv = Inr rows"
    and "read_text fs original_bib = Inr text"
    and "bib_load lib text = Inr entries"
  shows "(create_accepted_bib lib fs original_bib results_csv output_file = Inr fs' \<longrightarrow>
           (\<exists>out. bib_dump lib (filter (accepted_in rows) entries) = Inr out
                  \<and> fs' = fs(output_file := Content out)))
       \<and> (list_all (\<lambda>row. (\<exists>s. row (py ''status'') = Some (Some s))
                           \<and> row (py ''citekey'') \<noteq> None) rows
          \<and> fs output_file \<noteq> Locked
          \<and> bib_dump lib (filter (accepted_in rows) entries) = Inr out
          \<and> utf8_encodable out \<longrightarrow>
          create_accepted_bib lib fs original_bib results_csv output_file =
            Inr (fs(output_file := Content out)))"
proof (intro conjI impI)
  assume r: "create_accepted_bib lib fs original_bib results_csv output_file = Inr fs'"
  with assms obtain K where K: "accepted_keys_loop {} rows = Inr K"
    by (cases "accepted_keys_loop {} rows") (simp_all add: create_accepted_bib_def)
  from r show "\<exists>out. bib_dump lib (filter (accepted_in rows) entries) = Inr out
      \<and> fs' = fs(output_file := Content out)"
    by (auto simp: create_accepted_bib_def assms K filter_accepted_keys [OF K] write_text_def
        split: sum.splits if_splits file_node.splits)
next
  assume a: "list_all (\<lambda>row. (\<exists>s. row (py ''status'') = Some (Some s))
                           \<and> row (py ''citekey'') \<noteq> None) rows
          \<and> fs output_file \<noteq> Locked
          \<and> bib_dump lib (filter (accepted_in rows) entries) = Inr out
          \<and> utf8_encodable out"
  then obtain K where K: "accepted_keys_loop {} rows = Inr K"
    using accepted_keys_loop_total by blast
  from a show "create_accepted_bib lib fs original_bib results_csv output_file =
      Inr (fs(output_file := Content out))"
    by (auto simp: create_accepted_bib_def assms K filter_accepted_keys [OF K] write_text_def
        split: file_node.splits)
qed

lemmas csv_reader_defs = read_results_def read_text_def DictReader_def make_row_def
  parse_add_char_def field_limit_def parse_save_field_def end_of_field_def is_nl_def
  parse_reset_def

lemmas writer_defs = entry_to_bibtex_def field_to_bibtex_def display_order_def dict_get_def

text \<open>
  C2, as stated, fails for the order of the output. The bibliography lists the entries
  \<open>C\<close>, \<open>A\<close>, \<open>B\<close> and the table accepts all three; the file that the filter writes
  lists them as \<open>A\<close>, \<open>B\<close>, \<open>C\<close>. The filter hands the selected entries to the
  library in the order of the bibliography, and the default writer of the library,
  which the filter does not configure, sorts them by identifier.
\<close>

theorem original_order_not_kept:
  "create_accepted_bib
     \<lparr>bib_load = \<lambda>text. Inr
        [[py ''ENTRYTYPE'' \<mapsto> py ''article'', py ''ID'' \<mapsto> py ''C''],
         [py ''ENTRYTYPE'' \<mapsto> py ''article'', py ''ID'' \<mapsto> py ''A''],
         [py ''ENTRYTYPE'' \<mapsto> py ''article'', py ''ID'' \<mapsto> py ''B'']],
      bib_dump = BibTexWriter_write\<rparr>
     ((\<lambda>path. Absent)
        (py ''input.bib'' := Content [],
         py ''results.csv'' := Content (py ''citekey,title,status'' @ [13, 10]
            @ py ''C,,accepted'' @ [13, 10] @ py ''A,,accepted'' @ [13, 10]
            @ py ''B,,accepted'' @ [13, 10])))
     (py ''input.bib'') (py ''results.csv'') (py ''accepted.bib'') =
   Inr (((\<lambda>path. Absent)
        (py ''input.bib'' := Content [],
         py ''results.csv'' := Content (py ''citekey,title,status'' @ [13, 10]
            @ py ''C,,accepted'' @ [13, 10] @ py ''A,,accepted'' @ [13, 10]
            @ py ''B,,accepted'' @ [13, 10])))
        (py ''accepted.bib'' := Content
           (py ''@article{A'' @ [10] @ py ''}'' @ [10, 10]
            @ py ''@article{B'' @ [10] @ py ''}'' @ [10, 10]
            @ py ''@article{C'' @ [10] @ py ''}'' @ [10, 10])))"
proof -
  define eA :: entry where "eA = [py ''ENTRYTYPE'' \<mapsto> py ''article'', py ''ID'' \<mapsto> py ''A'']"
  define eB :: entry where "eB = [py ''ENTRYTYPE'' \<mapsto> py ''article'', py ''ID'' \<mapsto> py ''B'']"
  define eC :: entry where "eC = [py ''ENTRYTYPE'' \<mapsto> py ''article'', py ''ID'' \<mapsto> py ''C'']"
  define lib where "lib =
     \<lparr>bib_load = \<lambda>text :: pystr. Inr [eC, eA, eB] :: py_error + entry list,
      bib_dump = BibTexWriter_write\<rparr>"
  define fs :: filesystem where "fs = ((\<lambda>path. Absent)
        (py ''input.bib'' := Content [],
         py ''results.csv'' := Content (py ''citekey,title,status'' @ [13, 10]
            @ py ''C,,accepted'' @ [13, 10] @ py ''A,,accepted'' @ [13, 10]
            @ py ''B,,accepted'' @ [13, 10])))"
  define rows :: "csv_row list" where "rows =
     [[py ''citekey'' \<mapsto> Some (py ''C''), py ''title'' \<mapsto> Some [], py ''status'' \<mapsto> Some (py ''accepted'')],
      [py ''citekey'' \<mapsto> Some (py ''A''), py ''title'' \<mapsto> Some [], py ''status'' \<mapsto> Some (py ''accepted'')],
      [py ''citekey'' \<mapsto> Some (py ''B''), py ''title'' \<mapsto> Some [], py ''status'' \<mapsto> Some (py ''accepted'')]]"
  define out where "out = py ''@article{A'' @ [10] @ py ''}'' @ [10, 10]
            @ py ''@article{B'' @ [10] @ py ''}'' @ [10, 10]
            @ py ''@article{C'' @ [10] @ py ''}'' @ [10, 10]"
  have 1: "read_results fs (py ''results.csv'') = Inr rows"
    unfolding fs_def rows_def by (simp add: csv_reader_defs py_def)
  have 2: "read_text fs (py ''input.bib'') = Inr []"
    unfolding fs_def by (simp add: read_text_def py_def)
  have 3: "bib_load lib [] = Inr [eC, eA, eB]"
    by (simp add: lib_def)
  have ids: "dict_get eA (py ''ID'') [] = py ''A''" "dict_get eB (py ''ID'') [] = py ''B''"
    "dict_get eC (py ''ID'') [] = py ''C''"
    by (simp_all add: eA_def eB_def eC_def dict_get_def py_def)
  have wf: "list_all (\<lambda>row. (\<exists>s. row (py ''status'') = Some (Some s))
                           \<and> row (py ''citekey'') \<noteq> None) rows"
    by (simp add: rows_def py_def)
  have acc: "accepted_in rows eA" "accepted_in rows eB" "accepted_in rows eC"
    by (simp_all add: accepted_in_def ids) (simp_all add: rows_def py_def py_lower_def py_lower_char_def)
  have sel: "filter (accepted_in rows) [eC, eA, eB] = [eC, eA, eB]"
    by (simp add: acc)
  have keys: "entry_sort_key eA = py ''a''" "entry_sort_key eB = py ''b''"
    "entry_sort_key eC = py ''c''"
    by (simp_all add: entry_sort_key_def ids) (simp_all add: py_def py_lower_def py_lower_char_def)
  have sorted: "sort_key entry_sort_key [eC, eA, eB] = [eA, eB, eC]"
    by (simp add: keys) (simp add: py_def)
  have texts: "entry_to_bibtex eA = Inr (py ''@article{A'' @ [10] @ py ''}'' @ [10, 10])"
    "entry_to_bibtex eB = Inr (py ''@article{B'' @ [10] @ py ''}'' @ [10, 10])"
    "entry_to_bibtex eC = Inr (py ''@article{C'' @ [10] @ py ''}'' @ [10, 10])"
    by (simp_all add: writer_defs eA_def eB_def eC_def py_def)
  have dump: "bib_dump lib (filter (accepted_in rows) [eC, eA, eB]) = Inr out"
  proof -
    have "bib_dump lib = BibTexWriter_write"
      by (simp add: lib_def)
    then show ?thesis
      by (simp only: BibTexWriter_write_def sel sorted) (simp add: texts out_def)
  qed
  have free: "fs (py ''accepted.bib'') \<noteq> Locked"
    by (simp add: fs_def py_def)
  have enc: "utf8_encodable out"
    by (simp add: utf8_encodable_def out_def py_def)
  from create_accepted_bib_dumps [OF 1 2 3, of "py ''accepted.bib''" fs out]
    wf free dump enc
  have "create_accepted_bib lib fs (py ''input.bib'') (py ''results.csv'') (py ''accepted.bib'')
      = Inr (fs(py ''accepted.bib'' := Content out))"
    by blast
  then show ?thesis
    by (simp only: lib_def fs_def eA_def eB_def eC_def out_def)
qed

text \<open>
  C2, amended. Let the results table and the bibliography be readable, let the library
  write as its default writer does, and let the identifiers be made of code points
  below U+0100. If \<open>create_accepted_bib\<close> returns, the file it wrote is made of the
  texts of exactly those entries of the bibliography for which some row of the table
  has the entry's identifier as citekey and a status equal to \<open>accepted\<close> without
  regard to letter case; an entry with no such row is left out. The texts come in the
  order of the lower-cased identifiers, entries with the same key in the order of the
  bibliography, and each is the text of the entry as it was loaded: its type, its
  identifier and its fields with their values. It does return whenever every row has a
  status and a citekey column, the output path can be written, every selected entry has
  a text and the whole can be encoded.
\<close>

theorem create_accepted_bib_writes_sorted:
  assumes "read_results fs results_csv = Inr rows"
    and "read_text fs original_bib = Inr text"
    and "bib_load lib text = Inr entries"
    and "bib_dump lib = BibTexWriter_write"
    and "list_all (\<lambda>entry. latin1 (dict_get entry (py ''ID'') [])) entries"
  shows "(create_accepted_bib lib fs original_bib results_csv output_file = Inr fs' \<longrightarrow>
           (\<exists>texts. map entry_to_bibtex
                       (sort_key entry_sort_key (filter (accepted_in rows) entries)) =
                     map Inr texts
                  \<and> fs' = fs(output_file := Content (concat texts))))
       \<and> (list_all (\<lambda>row. (\<exists>s. row (py ''status'') = Some (Some s))
                           \<and> row (py ''citekey'') \<noteq> None) rows
          \<and> fs output_file \<noteq> Locked
          \<and> map entry_to_bibtex
              (sort_key entry_sort_key (filter (accepted_in rows) entries)) = map Inr texts
          \<and> utf8_encodable (concat texts) \<longrightarrow>
          create_accepted_bib lib fs original_bib results_csv output_file =
            Inr (fs(output_file := Content (concat texts))))"
proof -
  have dump: "bib_dump lib es = Inr out \<longleftrightarrow>
      (\<exists>texts. map entry_to_bibtex (sort_key entry_sort_key es) = map Inr texts
         \<and> out = concat texts)" for es out
    by (simp only: assms(4) BibTexWriter_write_def entries_to_bibtex_texts)
  note d = create_accepted_bib_dumps [OF assms(1-3)]
  have 1: "create_accepted_bib lib fs original_bib results_csv output_file = Inr fs' \<longrightarrow>
           (\<exists>texts. map entry_to_bibtex
                       (sort_key entry_sort_key (filter (accepted_in rows) entries)) =
                     map Inr texts
                  \<and> fs' = fs(output_file := Content (concat texts)))"
  proof
    assume "create_accepted_bib lib fs original_bib results_csv output_file = Inr fs'"
    with d [of output_file fs' "[]", THEN conjunct1] obtain out
      where out: "bib_dump lib (filter (accepted_in rows) entries) = Inr out"
        and fs': "fs' = fs(output_file := Content out)"
      by blast
    from out obtain texts' where "map entry_to_bibtex
        (sort_key entry_sort_key (filter (accepted_in rows) entries)) = map Inr texts'"
      and "out = concat texts'"
      unfolding dump by blast
    with fs' show "\<exists>texts. map entry_to_bibtex
                       (sort_key entry_sort_key (filter (accepted_in rows) entries)) =
                     map Inr texts
                  \<and> fs' = fs(output_file := Content (concat texts))"
      by blast
  qed
  have 2: "list_all (\<lambda>row. (\<exists>s. row (py ''status'') = Some (Some s))
                           \<and> row (py ''citekey'') \<noteq> None) rows
          \<and> fs output_file \<noteq> Locked
          \<and> map entry_to_bibtex
              (sort_key entry_sort_key (filter (accepted_in rows) entries)) = map Inr texts
          \<and> utf8_encodable (concat texts) \<longrightarrow>
          create_accepted_bib lib fs original_bib results_csv output_file =
            Inr (fs(output_file := Content (concat texts)))"
  proof
    assume a: "list_all (\<lambda>row. (\<exists>s. row (py ''status'') = Some (Some s))
                           \<and> row (py ''citekey'') \<noteq> None) rows
          \<and> fs output_file \<noteq> Locked
          \<and> map entry_to_bibtex
              (sort_key entry_sort_key (filter (accepted_in rows) entries)) = map Inr texts
          \<and> utf8_encodable (concat texts)"
    then have "bib_dump lib (filter (accepted_in rows) entries) = Inr (concat texts)"
      unfolding dump by blast
    with a d [of output_file fs' "concat texts"]
    show "create_accepted_bib lib fs original_bib results_csv output_file =
            Inr (fs(output_file := Content (concat texts)))"
      by blast
  qed
  from 1 2 show ?thesis by (rule conjI)
qed


theorem create_accepted_bib_writes_sorted_witness:
  "create_accepted_bib
     \<lparr>bib_load = \<lambda>text. Inr
        [[py ''ENTRYTYPE'' \<mapsto> py ''article'', py ''ID'' \<mapsto> py ''C'', py ''title'' \<mapsto> py ''three''],
         [py ''ENTRYTYPE'' \<mapsto> py ''book'', py ''ID'' \<mapsto> py ''B''],
         [py ''ENTRYTYPE'' \<mapsto> py ''article'', py ''ID'' \<mapsto> py ''A'', py ''year'' \<mapsto> py ''2020'',
          py ''title'' \<mapsto> py ''one''],
         [py ''ENTRYTYPE'' \<mapsto> py ''misc'', py ''ID'' \<mapsto> py ''D'']],
      bib_dump = BibTexWriter_write\<rparr>
     ((\<lambda>path. Absent)
        (py ''input.bib'' := Content [],
         py ''results.csv'' := Content (py ''citekey,title,status'' @ [13, 10]
            @ py ''A,,Accepted'' @ [13, 10] @ py ''B,,rejected'' @ [13, 10]
            @ py ''C,x,accepted'' @ [13, 10])))
     (py ''input.bib'') (py ''results.csv'') (py ''accepted.bib'') =
   Inr (((\<lambda>path. Absent)
        (py ''input.bib'' := Content [],
         py ''results.csv'' := Content (py ''citekey,title,status'' @ [13, 10]
            @ py ''A,,Accepted'' @ [13, 10] @ py ''B,,rejected'' @ [13, 10]
            @ py ''C,x,accepted'' @ [13, 10])))
        (py ''accepted.bib'' := Content (concat
           [py ''@article{A,'' @ [10] @ py '' title = {one},'' @ [10] @ py '' year = {2020}'' @ [10]
              @ py ''}'' @ [10, 10],
            py ''@article{C,'' @ [10] @ py '' title = {three}'' @ [10] @ py ''}'' @ [10, 10]])))"
proof -
  define eA :: entry where "eA =
     [py ''ENTRYTYPE'' \<mapsto> py ''article'', py ''ID'' \<mapsto> py ''A'', py ''year'' \<mapsto> py ''2020'',
      py ''title'' \<mapsto> py ''one'']"
  define eB :: entry where "eB = [py ''ENTRYTYPE'' \<mapsto> py ''book'', py ''ID'' \<mapsto> py ''B'']"
  define eC :: entry where "eC =
     [py ''ENTRYTYPE'' \<mapsto> py ''article'', py ''ID'' \<mapsto> py ''C'', py ''title'' \<mapsto> py ''three'']"
  define eD :: entry where "eD = [py ''ENTRYTYPE'' \<mapsto> py ''misc'', py ''ID'' \<mapsto> py ''D'']"
  define lib where "lib =
     \<lparr>bib_load = \<lambda>text :: pystr. Inr [eC, eB, eA, eD] :: py_error + entry list,
      bib_dump = BibTexWriter_write\<rparr>"
  define fs :: filesystem where "fs = ((\<lambda>path. Absent)
        (py ''input.bib'' := Content [],
         py ''results.csv'' := Content (py ''citekey,title,status'' @ [13, 10]
            @ py ''A,,Accepted'' @ [13, 10] @ py ''B,,rejected'' @ [13, 10]
            @ py ''C,x,accepted'' @ [13, 10])))"
  define rows :: "csv_row list" where "rows =
     [[py ''citekey'' \<mapsto> Some (py ''A''), py ''title'' \<mapsto> Some [], py ''status'' \<mapsto> Some (py ''Accepted'')],
      [py ''citekey'' \<mapsto> Some (py ''B''), py ''title'' \<mapsto> Some [], py ''status'' \<mapsto> Some (py ''rejected'')],
      [py ''citekey'' \<mapsto> Some (py ''C''), py ''title'' \<mapsto> Some (py ''x''), py ''status'' \<mapsto> Some (py ''accepted'')]]"
  define tA where "tA = py ''@article{A,'' @ [10] @ py '' title = {one},'' @ [10]
      @ py '' year = {2020}'' @ [10] @ py ''}'' @ [10, 10]"
  define tC where "tC = py ''@article{C,'' @ [10] @ py '' title = {three}'' @ [10]
      @ py ''}'' @ [10, 10]"
  have 1: "read_results fs (py ''results.csv'') = Inr rows"
    unfolding fs_def rows_def by (simp add: csv_reader_defs py_def)
  have 2: "read_text fs (py ''input.bib'') = Inr []"
    unfolding fs_def by (simp add: read_text_def py_def)
  have 3: "bib_load lib [] = Inr [eC, eB, eA, eD]"
    by (simp add: lib_def)
  have 4: "bib_dump lib = BibTexWriter_write"
    by (simp add: lib_def)
  have ids: "dict_get eA (py ''ID'') [] = py ''A''" "dict_get eB (py ''ID'') [] = py ''B''"
    "dict_get eC (py ''ID'') [] = py ''C''" "dict_get eD (py ''ID'') [] = py ''D''"
    by (simp_all add: eA_def eB_def eC_def eD_def dict_get_def py_def)
  have 5: "list_all (\<lambda>entry. latin1 (dict_get entry (py ''ID'') [])) [eC, eB, eA, eD]"
    by (simp add: ids) (simp add: latin1_def py_def)
  have wf: "list_all (\<lambda>row. (\<exists>s. row (py ''status'') = Some (Some s))
                           \<and> row (py ''citekey'') \<noteq> None) rows"
    by (simp add: rows_def py_def)
  have acc: "accepted_in rows eA" "\<not> accepted_in rows eB" "accepted_in rows eC"
    "\<not> accepted_in rows eD"
    by (simp_all add: accepted_in_def ids) (simp_all add: rows_def py_def py_lower_def py_lower_char_def)
  have sel: "filter (accepted_in rows) [eC, eB, eA, eD] = [eC, eA]"
    by (simp add: acc)
  have keys: "entry_sort_key eA = py ''a''" "entry_sort_key eC = py ''c''"
    by (simp_all add: entry_sort_key_def ids) (simp_all add: py_def py_lower_def py_lower_char_def)
  have sorted: "sort_key entry_sort_key [eC, eA] = [eA, eC]"
    by (simp add: keys) (simp add: py_def)
  have texts: "entry_to_bibtex eA = Inr tA" "entry_to_bibtex eC = Inr tC"
    by (simp_all add: writer_defs eA_def eC_def tA_def tC_def py_def)
  have written: "map entry_to_bibtex (sort_key entry_sort_key
      (filter (accepted_in rows) [eC, eB, eA, eD])) = map Inr [tA, tC]"
    by (simp only: sel sorted) (simp add: texts)
  have free: "fs (py ''accepted.bib'') \<noteq> Locked"
    by (simp add: fs_def py_def)
  have enc: "utf8_encodable (concat [tA, tC])"
    by (simp add: utf8_encodable_def tA_def tC_def py_def)
  from create_accepted_bib_writes_sorted [OF 1 2 3 4 5, of "py ''accepted.bib''" fs "[tA, tC]"]
    wf free written enc
  have "create_accepted_bib lib fs (py ''input.bib'') (py ''results.csv'') (py ''accepted.bib'')
      = Inr (fs(py ''accepted.bib'' := Content (concat [tA, tC])))"
    by blast
  then show ?thesis
    by (simp only: lib_def fs_def eA_def eB_def eC_def eD_def tA_def tC_def)
qed

lemmas csv_writer_defs = write_results_to_csv_def write_text_def utf8_encodable_def
  results_table_def csv_writerow_def fieldnames_def dict_to_list_def csv_field_def
  csv_special_def

section \<open>Writing the results table and reading it back\<close>

text \<open>
  C8. A reasoning text with a comma, a quote and a line feed comes back from the table
  as it was written. A carriage return does not: \<open>write_results_to_csv\<close> opens the
  file with \<open>newline=''\<close> and writes the carriage return inside a quoted field, the
  filter opens the file without it, and the text layer hands the reader a line feed
  in its place.
\<close>

theorem carriage_return_lost_on_read:
  "(case write_results_to_csv (\<lambda>path. Absent)
           [\<lparr>status = py ''accepted'', criteria = py ''CI1'', reasoning = [97, 13, 98],
             citekey = py ''k'', title = py ''t''\<rparr>] (py ''results.csv'') of
      Inl e \<Rightarrow> None
    | Inr fs \<Rightarrow>
        (case read_results fs (py ''results.csv'') of
           Inl e \<Rightarrow> None
         | Inr rows \<Rightarrow> Some (map (\<lambda>row. row (py ''reasoning'')) rows)))
   = Some [Some (Some [97, 10, 98])]
   \<and>
   (case write_results_to_csv (\<lambda>path. Absent)
           [\<lparr>status = py ''accepted'', criteria = py ''CI1'',
             reasoning = py ''a,b'' @ [34, 10] @ py ''c'',
             citekey = py ''k'', title = py ''t''\<rparr>] (py ''results.csv'') of
      Inl e \<Rightarrow> None
    | Inr fs \<Rightarrow>
        (case read_results fs (py ''results.csv'') of
           Inl e \<Rightarrow> None
         | Inr rows \<Rightarrow> Some (map (\<lambda>row. row (py ''reasoning'')) rows)))
   = Some [Some (Some (py ''a,b'' @ [34, 10] @ py ''c''))]"
  by (simp add: csv_writer_defs csv_reader_defs py_def)

end
